theory Spec2Isabelle
  imports Main "HOL-Library.Word"
begin

unbundle bit_operations_syntax

section \<open>Machine integers and constants\<close>

text \<open>
  The engine's integers are \<open>int\<close> values; every store into a narrower C type is written
  as the wrap-around of that type (\<open>u8\<close>, \<open>u16\<close>, \<open>u32\<close>, \<open>s8\<close>, \<open>s16\<close>). The C type
  \<open>int\<close> is taken to be at least 32 bits wide, as the clip bound \<open>MAX_WORD_VALUE\<close> of the
  source requires. Pixel bytes are \<open>8 word\<close>.
\<close>

type_synonym byte = "8 word"

definition u8 :: "int \<Rightarrow> int" where
  "u8 v = v mod 256"

definition u16 :: "int \<Rightarrow> int" where
  "u16 v = v mod 65536"

definition u32 :: "int \<Rightarrow> int" where
  "u32 v = v mod 4294967296"

definition s8 :: "int \<Rightarrow> int" where
  "s8 v = (v + 128) mod 256 - 128"

definition s16 :: "int \<Rightarrow> int" where
  "s16 v = (v + 32768) mod 65536 - 32768"

text \<open>C division truncates towards zero.\<close>

definition cdiv :: "int \<Rightarrow> int \<Rightarrow> int" where
  "cdiv a b = sgn a * sgn b * (\<bar>a\<bar> div \<bar>b\<bar>)"

text \<open>
  Modelled from the spec: the constants of the support header, which is not among the
  sources. The spec fixes \<open>MAX_PERCENTAGE = 100\<close>, \<open>MAX_FORCE = 1000\<close>, \<open>MAX_WORD = 65535\<close>
  and \<open>MAX_BYTE = 255\<close>; \<open>REDRAW\<close> is one flag bit of the plugin type mask (bit 0 here).
  The implementation-defined bounds \<open>MAX_DEGREES_HUE\<close>, \<open>MAX_DELAY_VALUE\<close> and
  \<open>MAX_PLUGIN_VALUE\<close> are parameters, fields of the record \<open>support\<close> below.
\<close>

definition MAX_PERCENTAGE :: int where
  "MAX_PERCENTAGE = 100"

definition MAX_FORCE_VALUE :: int where
  "MAX_FORCE_VALUE = 1000"

definition MAX_WORD_VALUE :: int where
  "MAX_WORD_VALUE = 65535"

definition MAX_BYTE_VALUE :: int where
  "MAX_BYTE_VALUE = 255"

definition PLUGIN_TYPE_REDRAW :: int where
  "PLUGIN_TYPE_REDRAW = 1"

text \<open>The bits of the \<open>Q\<close> command (enum \<open>ExtControlBit\<close>).\<close>

definition ExtControlBit_DegreeHue :: int where
  "ExtControlBit_DegreeHue = 1"

definition ExtControlBit_PcentWhite :: int where
  "ExtControlBit_PcentWhite = 2"

definition ExtControlBit_PixCount :: int where
  "ExtControlBit_PixCount = 4"

definition ExtControlBit_All :: int where
  "ExtControlBit_All = 7"

text \<open>
  Modelled from the spec: the integer mapper and the value clipper of the support class
  (\<open>pixelNutSupport.mapValue\<close>, \<open>pixelNutSupport.clipValue\<close>), which are not among the
  sources. The mapper is the linear map of an input range onto an output range, in
  integer arithmetic; the clipper clamps to \<open>[out_min, out_max]\<close>.
\<close>

definition mapValue :: "int \<Rightarrow> int \<Rightarrow> int \<Rightarrow> int \<Rightarrow> int \<Rightarrow> int" where
  "mapValue inval in_min in_max out_min out_max =
     cdiv ((inval - in_min) * (out_max - out_min)) (in_max - in_min) + out_min"

definition clipValue :: "int \<Rightarrow> int \<Rightarrow> int \<Rightarrow> int" where
  "clipValue inval out_min out_max =
     (if inval < out_min then out_min else if inval > out_max then out_max else inval)"

section \<open>Data model\<close>

datatype Status =
  Status_Success | Status_Error_BadVal | Status_Error_BadCmd | Status_Error_Memory

text \<open>
  Modelled from the spec: the draw properties (\<open>PixelNutSupport::DrawProps\<close>), declared in
  the support header. \<open>col_r\<close>, \<open>col_g\<close>, \<open>col_b\<close> are the precomputed RGB triple.
\<close>

record DrawProps =
  pixStart :: int
  pixLen :: int
  pixCount :: int
  degreeHue :: int
  pcentWhite :: int
  pcentBright :: int
  col_r :: int
  col_g :: int
  col_b :: int
  msecsDelay :: int
  goUpwards :: bool
  orPixelValues :: bool

text \<open>
  A layer (\<open>PluginLayer\<close>). The pointer \<open>pPlugin\<close> is the serial number of the plugin's
  allocation; the plugin object it points to, owned by this layer alone, is \<open>obj\<close>.
\<close>

record 'p PluginLayer =
  trigTimeMsecs :: int
  trigCount :: int
  trigDelayMin :: int
  trigDelayRange :: int
  trigForce :: int
  trigActive :: bool
  trigExtern :: bool
  trigSource :: int
  track :: int
  pPlugin :: nat
  obj :: 'p

text \<open>A track (\<open>PluginTrack\<close>); \<open>pRedrawBuff = None\<close> is the null pointer.\<close>

record PluginTrack =
  msTimeRedraw :: int
  pRedrawBuff :: "byte list option"
  draw :: DrawProps
  layer :: int
  ctrlBits :: int
  segIndex :: int
  disable :: int
  segOffset :: int
  segCount :: int

text \<open>
  What the engine does to the outside: plugins made by the factory and deleted, the plugin
  callbacks, buffers freed.
\<close>

datatype event =
  New nat | Begin nat int int | Trigger nat int | NextStep nat | Delete nat | Free nat

text \<open>Where \<open>pDrawPixels\<close> points.\<close>

datatype sink = SinkNull | SinkDisplay | SinkTrack nat

text \<open>
  The engine object. The members \<open>pcentBright\<close>, \<open>goUpwards\<close>, \<open>segOffset\<close> and
  \<open>segCount\<close> of the class carry the prefix \<open>eng_\<close>, since the draw properties and the
  tracks have fields of the same names. \<open>pDisplayPixels\<close> is the caller's buffer.
  The last five fields are the engine's surroundings: the millisecond clock read by
  \<open>getMsecs\<close> (constant during one call), the raw values the platform's \<open>random\<close> will
  return next, the outcomes of the next calls of \<open>malloc\<close> (it succeeds once the list is
  used up), the serial number of the next plugin allocation, and the events so far.
\<close>

record 'p engine =
  pDrawPixels :: sink
  eng_pcentBright :: int
  delayOffset :: int
  pluginLayers :: "'p PluginLayer list"
  maxPluginLayers :: int
  indexLayerStack :: int
  indexTrackEnable :: int
  pluginTracks :: "PluginTrack list"
  maxPluginTracks :: int
  indexTrackStack :: int
  timePrevUpdate :: int
  eng_goUpwards :: bool
  curForce :: int
  numPixels :: int
  pDisplayPixels :: "byte list"
  eng_segOffset :: int
  eng_segCount :: int
  externPropMode :: bool
  externDegreeHue :: int
  externPcentWhite :: int
  externPcentCount :: int
  clock :: int
  rand_src :: "int list"
  alloc_src :: "bool list"
  next_ptr :: nat
  trace :: "event list"

text \<open>
  The collaborators the engine calls: the plugin factory, the plugin contract and the
  colour helper of the support class. None of them is among the sources, except one
  plugin class. A plugin object is a value of the type \<open>'p\<close>; the virtual methods take it
  and return it changed.
  Modelled from the spec: \<open>trigger\<close> and \<open>nextstep\<close> may change the plugin itself, the draw
  properties passed to them, and the pixels of the current draw sink, which they return as
  a function on the sink's bytes (not applied when the sink is null).
  \<open>makeColors\<close> gives the RGB triple for hue, whiteness and brightness. The host's
  \<open>sendForce\<close> callback, by which a plugin may trigger other layers from inside its own
  call, is not modelled.
\<close>

record 'p support =
  MAX_DEGREES_HUE :: int
  MAX_DELAY_VALUE :: int
  MAX_PLUGIN_VALUE :: int
  makePlugin :: "int \<Rightarrow> 'p option"
  gettype :: "'p \<Rightarrow> int"
  begin_plugin :: "'p \<Rightarrow> int \<Rightarrow> int \<Rightarrow> 'p"
  trigger :: "'p \<Rightarrow> DrawProps \<Rightarrow> int \<Rightarrow> 'p \<times> DrawProps \<times> (byte list \<Rightarrow> byte list)"
  nextstep :: "'p \<Rightarrow> DrawProps \<Rightarrow> 'p \<times> DrawProps \<times> (byte list \<Rightarrow> byte list)"
  makeColors :: "int \<Rightarrow> int \<Rightarrow> int \<Rightarrow> int \<times> int \<times> int"

definition makeColorVals :: "'p support \<Rightarrow> DrawProps \<Rightarrow> DrawProps" where
  "makeColorVals env d =
     (case makeColors env (degreeHue d) (pcentWhite d) (pcentBright d) of
        (cr, cg, cb) \<Rightarrow> d\<lparr>col_r := cr, col_g := cg, col_b := cb\<rparr>)"

section \<open>Strings to numbers\<close>

text \<open>
  A command string is a C string: it ends at the first NUL, if there is one. The argument
  of a command is the rest of its token after the command letter (\<open>cmd+1\<close>), so an empty
  rest stands for a pointer to the terminating NUL, which is not a digit.
\<close>

definition isdigit :: "char \<Rightarrow> bool" where
  "isdigit c = (48 \<le> (of_char c :: nat) \<and> (of_char c :: nat) \<le> 57)"

definition toupper :: "char \<Rightarrow> char" where
  "toupper c =
     (if 97 \<le> (of_char c :: nat) \<and> (of_char c :: nat) \<le> 122
      then char_of ((of_char c :: nat) - 32) else c)"

text \<open>
  \<open>atoi\<close> is only called on a string whose first character is a digit, so there is
  neither white space nor a sign to skip. The C library computes \<open>(int) strtol(str, NULL, 10)\<close>:
  \<open>strtol\<close> reads the leading digits into a \<open>long\<close>, which stays at \<open>LONG_MAX\<close> once the
  number written is beyond it, and the conversion to \<open>int\<close> keeps the low bits. The widths
  are those of a host with a \<open>long\<close> of 64 bits and an \<open>int\<close> of 32 bits: \<open>atoi\<close> of
  \<open>4294967297\<close> is 1.
\<close>

definition LONG_MAX :: int where
  "LONG_MAX = 9223372036854775807"

definition s32 :: "int \<Rightarrow> int" where
  "s32 v = (v + 2147483648) mod 4294967296 - 2147483648"

fun strtol_from :: "int \<Rightarrow> string \<Rightarrow> int" where
  "strtol_from acc [] = acc"
| "strtol_from acc (c # cs) =
     (if isdigit c
      then strtol_from (min (acc * 10 + (int (of_char c) - 48)) LONG_MAX) cs
      else acc)"

definition atoi :: "string \<Rightarrow> int" where
  "atoi str = s32 (strtol_from 0 str)"

definition starts_with_digit :: "string \<Rightarrow> bool" where
  "starts_with_digit str = (case str of [] \<Rightarrow> False | c # _ \<Rightarrow> isdigit c)"

text \<open>\<open>GetBoolValue\<close>: set or toggle the value according to the character at \<open>str\<close>.\<close>

definition GetBoolValue :: "string \<Rightarrow> bool \<Rightarrow> bool" where
  "GetBoolValue str curval =
     (case str of
        [] \<Rightarrow> \<not> curval
      | c # _ \<Rightarrow> if c = CHR ''0'' then False else if c = CHR ''1'' then True else \<not> curval)"

text \<open>
  The two overloads of \<open>GetNumValue\<close>: \<open>GetNumValue2 str maxval\<close> returns -1 if there is
  no value or it is not in range; \<open>GetNumValue3 str curval maxval\<close> returns \<open>curval\<close> if
  there is no value and clips to the range otherwise.
\<close>

definition GetNumValue2 :: "string \<Rightarrow> int \<Rightarrow> int" where
  "GetNumValue2 str maxval =
     (if \<not> starts_with_digit str then - 1
      else let newval = atoi str in
        if newval > maxval then - 1 else if newval < 0 then - 1 else newval)"

definition GetNumValue3 :: "string \<Rightarrow> int \<Rightarrow> int \<Rightarrow> int" where
  "GetNumValue3 str curval maxval =
     (if \<not> starts_with_digit str then curval
      else let newval = atoi str in
        if newval > maxval then maxval else if newval < 0 then 0 else newval)"

text \<open>\<open>strtok\<close> with the delimiter \<open>" "\<close>: the tokens are the maximal runs without a space.\<close>

fun strtok_from :: "string \<Rightarrow> string \<Rightarrow> string list" where
  "strtok_from cur [] = (if cur = [] then [] else [cur])"
| "strtok_from cur (c # cs) =
     (if c = CHR '' '' then (if cur = [] then [] else [cur]) @ strtok_from [] cs
      else strtok_from (cur @ [c]) cs)"

definition c_string :: "string \<Rightarrow> string" where
  "c_string str = takeWhile (\<lambda>c. c \<noteq> CHR 0x00) str"

definition cmd_tokens :: "string \<Rightarrow> string list" where
  "cmd_tokens cmdstr = strtok_from [] (map toupper (c_string cmdstr))"

section \<open>The platform: random numbers and memory\<close>

text \<open>
  \<open>random(howsmall, howbig)\<close> of the platform returns a value in \<open>[howsmall, howbig - 1]\<close>,
  or \<open>howsmall\<close> when the range is empty. The raw values come from \<open>rand_src\<close>; a used-up
  source gives 0. \<open>random_value\<close> is the value returned and \<open>random_next\<close> the state
  after the call.
\<close>

definition random_value :: "'p engine \<Rightarrow> int \<Rightarrow> int \<Rightarrow> int" where
  "random_value s howsmall howbig =
     (if howsmall \<ge> howbig then howsmall
      else howsmall + (case rand_src s of [] \<Rightarrow> 0 | x # _ \<Rightarrow> \<bar>x\<bar>) mod (howbig - howsmall))"

definition random_next :: "'p engine \<Rightarrow> int \<Rightarrow> int \<Rightarrow> 'p engine" where
  "random_next s howsmall howbig =
     (if howsmall \<ge> howbig then s else s\<lparr>rand_src := tl (rand_src s)\<rparr>)"

text \<open>\<open>malloc\<close>: whether the next allocation succeeds, and the state after the call.\<close>

definition malloc_ok :: "'p engine \<Rightarrow> bool" where
  "malloc_ok s = (case alloc_src s of [] \<Rightarrow> True | ok # _ \<Rightarrow> ok)"

definition malloc_next :: "'p engine \<Rightarrow> 'p engine" where
  "malloc_next s = s\<lparr>alloc_src := tl (alloc_src s)\<rparr>"

definition log_event :: "event \<Rightarrow> 'p engine \<Rightarrow> 'p engine" where
  "log_event e s = s\<lparr>trace := trace s @ [e]\<rparr>"

section \<open>Constructor\<close>

text \<open>
  The constructor. The two stacks are allocated with \<open>malloc\<close> and not initialised: their
  slots hold \<open>junk_layer\<close> and \<open>junk_track\<close>. The three extern property values have no
  initialiser either (\<open>junk_hue\<close>, \<open>junk_white\<close>, \<open>junk_count\<close>). \<open>ptr_pixels = None\<close> is
  the null pointer; the display buffer has \<open>3 * num_pixels\<close> bytes. The caller must test
  \<open>pDrawPixels\<close> for null after construction.
\<close>

definition PixelNutEngine ::
  "byte list option \<Rightarrow> int \<Rightarrow> bool \<Rightarrow> int \<Rightarrow> int \<Rightarrow> bool \<Rightarrow> bool \<Rightarrow>
   'p PluginLayer \<Rightarrow> PluginTrack \<Rightarrow> int \<Rightarrow> int \<Rightarrow> int \<Rightarrow> 'p engine" where
  "PixelNutEngine ptr_pixels num_pixels goupwards num_layers num_tracks layers_ok tracks_ok
     junk_layer junk_track junk_hue junk_white junk_count =
     \<lparr> pDrawPixels =
         (if ptr_pixels = None \<or> num_pixels = 0 \<or> \<not> layers_ok \<or> \<not> tracks_ok
          then SinkNull else SinkDisplay),
       eng_pcentBright = MAX_PERCENTAGE,
       delayOffset = 0,
       pluginLayers = (if layers_ok then replicate (nat num_layers) junk_layer else []),
       maxPluginLayers = num_layers,
       indexLayerStack = - 1,
       indexTrackEnable = - 1,
       pluginTracks = (if tracks_ok then replicate (nat num_tracks) junk_track else []),
       maxPluginTracks = num_tracks,
       indexTrackStack = - 1,
       timePrevUpdate = 0,
       eng_goUpwards = goupwards,
       curForce = cdiv MAX_FORCE_VALUE 2,
       numPixels = num_pixels,
       pDisplayPixels = (case ptr_pixels of None \<Rightarrow> [] | Some px \<Rightarrow> px),
       eng_segOffset = 0,
       eng_segCount = num_pixels,
       externPropMode = False,
       externDegreeHue = junk_hue,
       externPcentWhite = junk_white,
       externPcentCount = junk_count,
       clock = 0,
       rand_src = [],
       alloc_src = [],
       next_ptr = 0,
       trace = [] \<rparr>"

section \<open>Stack handling\<close>

text \<open>
  \<open>clearStack\<close>. The inner loop deletes the plugins of the layers \<open>j\<close> from the track's
  first layer while \<open>j < indexLayerStack\<close>, counting them; the outer loop goes down the
  tracks, takes the count off \<open>indexLayerStack\<close> (which leaves it as it was or at the
  track's first layer) and frees the track's buffer.
\<close>

function clearStack_layers :: "'p engine \<Rightarrow> int \<Rightarrow> int \<Rightarrow> 'p engine \<times> int" where
  "clearStack_layers s j count =
     (if j < indexLayerStack s
      then clearStack_layers (log_event (Delete (pPlugin (pluginLayers s ! nat j))) s)
             (j + 1) (count + 1)
      else (s, count))"
  by pat_completeness auto
termination
  by (relation "measure (\<lambda>(s, j, count). nat (indexLayerStack s - j))")
     (auto simp: log_event_def)

declare clearStack_layers.simps [simp del]

function clearStack_tracks :: "'p engine \<Rightarrow> int \<Rightarrow> 'p engine" where
  "clearStack_tracks s i =
     (if i \<ge> 0
      then (case clearStack_layers s (layer (pluginTracks s ! nat i)) 0 of
              (s1, count) \<Rightarrow>
                let s2 = s1\<lparr>indexLayerStack := indexLayerStack s1 - count\<rparr>;
                    s3 = (if pRedrawBuff (pluginTracks s2 ! nat i) \<noteq> None
                          then log_event (Free (nat i)) s2 else s2)
                in clearStack_tracks s3 (i - 1))
      else s)"
  by pat_completeness fast
termination
  by (relation "measure (\<lambda>(s, i). nat (i + 1))") auto

declare clearStack_tracks.simps [simp del]

definition clearStack :: "'p engine \<Rightarrow> 'p engine" where
  "clearStack s =
     (let s1 = clearStack_tracks s (indexTrackStack s)
      in s1\<lparr> indexTrackEnable := - 1,
              indexLayerStack := - 1,
              indexTrackStack := - 1,
              eng_segOffset := 0,
              eng_segCount := numPixels s1,
              pDisplayPixels := replicate (nat (numPixels s1 * 3)) 0 \<rparr>)"

text \<open>
  \<open>NewPluginLayer\<close>. A slot of a stack is cleared with \<open>memset\<close> and then filled field
  by field; \<open>new_track\<close> and \<open>new_layer\<close> are the filled slots. The guards keep the
  stack indices below the capacities, so their increments do not overflow.
\<close>

definition new_track :: "'p support \<Rightarrow> 'p engine \<Rightarrow> int \<Rightarrow> PluginTrack" where
  "new_track env s segindex =
     \<lparr> msTimeRedraw = 0,
       pRedrawBuff = None,
       draw = makeColorVals env
         \<lparr> pixStart = 0, pixLen = eng_segCount s, pixCount = 1, degreeHue = 0,
           pcentWhite = 0, pcentBright = MAX_PERCENTAGE, col_r = 0, col_g = 0, col_b = 0,
           msecsDelay = 0, goUpwards = eng_goUpwards s, orPixelValues = True \<rparr>,
       layer = u8 (indexLayerStack s),
       ctrlBits = 0,
       segIndex = u8 segindex,
       disable = 0,
       segOffset = eng_segOffset s,
       segCount = eng_segCount s \<rparr>"

definition new_layer :: "'p engine \<Rightarrow> nat \<Rightarrow> 'p \<Rightarrow> 'p PluginLayer" where
  "new_layer s ptr p =
     \<lparr> trigTimeMsecs = 0,
       trigCount = - 1,
       trigDelayMin = 1,
       trigDelayRange = 0,
       trigForce = curForce s,
       trigActive = False,
       trigExtern = False,
       trigSource = MAX_BYTE_VALUE,
       track = u8 (indexTrackStack s),
       pPlugin = ptr,
       obj = p \<rparr>"

definition is_redraw :: "'p support \<Rightarrow> 'p \<Rightarrow> bool" where
  "is_redraw env p = (gettype env p AND PLUGIN_TYPE_REDRAW \<noteq> 0)"

definition upd_layer :: "int \<Rightarrow> ('p PluginLayer \<Rightarrow> 'p PluginLayer) \<Rightarrow> 'p engine \<Rightarrow> 'p engine" where
  "upd_layer i f s = s\<lparr>pluginLayers := (pluginLayers s)[nat i := f (pluginLayers s ! nat i)]\<rparr>"

definition upd_track :: "int \<Rightarrow> (PluginTrack \<Rightarrow> PluginTrack) \<Rightarrow> 'p engine \<Rightarrow> 'p engine" where
  "upd_track i f s = s\<lparr>pluginTracks := (pluginTracks s)[nat i := f (pluginTracks s ! nat i)]\<rparr>"

definition NewPluginLayer :: "'p support \<Rightarrow> 'p engine \<Rightarrow> int \<Rightarrow> int \<Rightarrow> Status \<times> 'p engine" where
  "NewPluginLayer env s plugin segindex =
     (if indexLayerStack s + 1 \<ge> maxPluginLayers s then (Status_Error_Memory, s)
      else case makePlugin env plugin of
        None \<Rightarrow> (Status_Error_BadVal, s)
      | Some p \<Rightarrow>
          let ptr = next_ptr s;
              s0 = log_event (New ptr) (s\<lparr>next_ptr := Suc ptr\<rparr>);
              newtrack = is_redraw env p
          in if (\<not> newtrack \<and> indexTrackStack s0 < 0) \<or>
                (newtrack \<and> indexTrackStack s0 + 1 \<ge> maxPluginTracks s0)
             then (if newtrack then Status_Error_Memory else Status_Error_BadCmd,
                   log_event (Delete ptr) s0)
             else
               let s1 = s0\<lparr>indexLayerStack := indexLayerStack s0 + 1\<rparr>;
                   s2 = (if newtrack
                         then let s' = s1\<lparr>indexTrackStack := indexTrackStack s1 + 1\<rparr>
                              in upd_track (indexTrackStack s') (\<lambda>_. new_track env s' segindex) s'
                         else s1);
                   s3 = upd_layer (indexLayerStack s2) (\<lambda>_. new_layer s2 ptr p) s2;
                   s4 = log_event (Begin ptr (u8 (indexLayerStack s3)) (eng_segCount s3))
                          (upd_layer (indexLayerStack s3)
                             (\<lambda>l. l\<lparr>obj := begin_plugin env p (u8 (indexLayerStack s3))
                                                (eng_segCount s3)\<rparr>) s3)
               in if newtrack
                  then let s5 = malloc_next s4 in
                    if \<not> malloc_ok s4
                    then (Status_Error_Memory,
                          log_event (Delete ptr)
                            (s5\<lparr>indexTrackStack := indexTrackStack s5 - 1,
                                 indexLayerStack := indexLayerStack s5 - 1\<rparr>))
                    else (Status_Success,
                          upd_track (indexTrackStack s5)
                            (\<lambda>t. t\<lparr>pRedrawBuff :=
                                       Some (replicate (nat (eng_segCount s5 * 3)) 0)\<rparr>) s5)
                  else (Status_Success, s4))"

section \<open>Triggering\<close>

text \<open>\<open>RestorePropVals\<close>: restore the property values whose control bits are set.\<close>

definition RestorePropVals ::
  "'p support \<Rightarrow> PluginTrack \<Rightarrow> int \<Rightarrow> int \<Rightarrow> int \<Rightarrow> PluginTrack" where
  "RestorePropVals env pTrack pixCount0 degreeHue0 pcentWhite0 =
     (if disable pTrack \<noteq> 0 then pTrack
      else
        let d = draw pTrack;
            d1 = (if ctrlBits pTrack AND ExtControlBit_PixCount \<noteq> 0
                  then d\<lparr>pixCount := pixCount0\<rparr> else d);
            set_hue = (ctrlBits pTrack AND ExtControlBit_DegreeHue \<noteq> 0 \<and>
                       degreeHue d1 \<noteq> degreeHue0);
            d2 = (if set_hue then d1\<lparr>degreeHue := degreeHue0\<rparr> else d1);
            set_white = (ctrlBits pTrack AND ExtControlBit_PcentWhite \<noteq> 0 \<and>
                         pcentWhite d2 \<noteq> pcentWhite0);
            d3 = (if set_white then d2\<lparr>pcentWhite := pcentWhite0\<rparr> else d2);
            d4 = (if set_hue \<or> set_white then makeColorVals env d3 else d3)
        in pTrack\<lparr>draw := d4\<rparr>)"

text \<open>
  \<open>triggerLayer\<close>. The plugin draws into the track's buffer if it is a redraw plugin and
  nowhere otherwise; \<open>pDrawPixels\<close> is pointed there for the call and restored after it.
\<close>

definition triggerLayer :: "'p support \<Rightarrow> 'p engine \<Rightarrow> int \<Rightarrow> int \<Rightarrow> 'p engine" where
  "triggerLayer env s li force =
     (let pLayer = pluginLayers s ! nat li;
          ti = track pLayer;
          pTrack = pluginTracks s ! nat ti;
          predraw = (\<not> is_redraw env (obj pLayer));
          pixCount0 = (if externPropMode s then pixCount (draw pTrack) else 0);
          degreeHue0 = (if externPropMode s then degreeHue (draw pTrack) else 0);
          pcentWhite0 = (if externPropMode s then pcentWhite (draw pTrack) else 0);
          res = trigger env (obj pLayer) (draw pTrack) force;
          t1 = pTrack\<lparr>draw := fst (snd res),
                      pRedrawBuff := (if predraw then pRedrawBuff pTrack
                                      else map_option (snd (snd res)) (pRedrawBuff pTrack))\<rparr>;
          t2 = (if externPropMode s
                then RestorePropVals env t1 pixCount0 degreeHue0 pcentWhite0 else t1);
          t3 = (if \<not> predraw then t2\<lparr>msTimeRedraw := clock s\<rparr> else t2)
      in log_event (Trigger (nat li) force)
           (upd_layer li (\<lambda>l. l\<lparr>obj := fst res, trigActive := True\<rparr>)
              (upd_track ti (\<lambda>_. t3) s)))"

lemma indexLayerStack_triggerLayer:
  "indexLayerStack (triggerLayer env s li force) = indexLayerStack s"
  by (simp add: triggerLayer_def upd_layer_def upd_track_def log_event_def Let_def)

text \<open>
  \<open>CheckAutoTrigger\<close>: one pass of its loop for the layer \<open>i\<close>, after the test that
  the layer's track is enabled; \<open>auto_fire\<close> is the body of the inner \<open>if\<close>.
\<close>

definition auto_fire :: "'p support \<Rightarrow> 'p engine \<Rightarrow> int \<Rightarrow> 'p engine" where
  "auto_fire env s1 i =
     (let l1 = pluginLayers s1 ! nat i;
          force = (if trigForce l1 \<ge> 0 then trigForce l1
                   else random_value s1 0 (MAX_FORCE_VALUE + 1));
          s2 = (if trigForce l1 \<ge> 0 then s1 else random_next s1 0 (MAX_FORCE_VALUE + 1));
          s3 = triggerLayer env s2 (u8 i) (s16 force);
          l3 = pluginLayers s3 ! nat i;
          secs = random_value s3 (trigDelayMin l3) (trigDelayMin l3 + trigDelayRange l3 + 1);
          s4 = random_next s3 (trigDelayMin l3) (trigDelayMin l3 + trigDelayRange l3 + 1);
          s5 = upd_layer i (\<lambda>l. l\<lparr>trigTimeMsecs := u32 (timePrevUpdate s4 + 1000 * secs)\<rparr>) s4
      in if trigCount (pluginLayers s5 ! nat i) > 0
         then upd_layer i (\<lambda>l. l\<lparr>trigCount := trigCount l - 1\<rparr>) s5
         else s5)"

definition CheckAutoTrigger_layer :: "'p support \<Rightarrow> bool \<Rightarrow> 'p engine \<Rightarrow> int \<Rightarrow> 'p engine" where
  "CheckAutoTrigger_layer env rollover s i =
     (let s1 = (if rollover \<and> trigTimeMsecs (pluginLayers s ! nat i) > 0
                then upd_layer i (\<lambda>l. l\<lparr>trigTimeMsecs := timePrevUpdate s\<rparr>) s else s);
          l1 = pluginLayers s1 ! nat i
      in if trigActive l1 \<and> trigCount l1 \<noteq> 0 \<and> trigTimeMsecs l1 > 0 \<and>
            trigTimeMsecs l1 \<le> timePrevUpdate s1
         then auto_fire env s1 i
         else s1)"

lemma indexLayerStack_random_next:
  "indexLayerStack (random_next s a b) = indexLayerStack s"
  by (simp add: random_next_def)

lemma indexLayerStack_upd_layer:
  "indexLayerStack (upd_layer i f s) = indexLayerStack s"
  by (simp add: upd_layer_def)

lemma indexLayerStack_auto_fire:
  "indexLayerStack (auto_fire env s i) = indexLayerStack s"
  unfolding auto_fire_def Let_def
  by (simp add: indexLayerStack_upd_layer indexLayerStack_random_next
      indexLayerStack_triggerLayer)

lemma indexLayerStack_CheckAutoTrigger_layer:
  "indexLayerStack (CheckAutoTrigger_layer env rollover s i) = indexLayerStack s"
  unfolding CheckAutoTrigger_layer_def Let_def
  by (simp add: indexLayerStack_upd_layer indexLayerStack_auto_fire)

function CheckAutoTrigger_from :: "'p support \<Rightarrow> bool \<Rightarrow> 'p engine \<Rightarrow> int \<Rightarrow> 'p engine" where
  "CheckAutoTrigger_from env rollover s i =
     (if i \<le> indexLayerStack s
      then if track (pluginLayers s ! nat i) > indexTrackEnable s then s
           else CheckAutoTrigger_from env rollover (CheckAutoTrigger_layer env rollover s i) (i + 1)
      else s)"
  by pat_completeness fast
termination
  by (relation "measure (\<lambda>(env, rollover, s, i). nat (indexLayerStack s + 1 - i))")
     (simp_all add: indexLayerStack_CheckAutoTrigger_layer)

declare CheckAutoTrigger_from.simps [simp del]

definition CheckAutoTrigger :: "'p support \<Rightarrow> bool \<Rightarrow> 'p engine \<Rightarrow> 'p engine" where
  "CheckAutoTrigger env rollover s = CheckAutoTrigger_from env rollover s 0"

text \<open>
  The two overloads of \<open>triggerForce\<close>: the external one, and the one by source layer
  (\<open>triggerForce2\<close>). The arguments of the public functions are values of their C
  parameter types (\<open>byte layer\<close>, \<open>short force\<close>); where the source passes an \<open>int\<close>
  loop index for a \<open>byte\<close> parameter, the call site has the conversion \<open>u8\<close>.
\<close>

function triggerForce_from :: "'p support \<Rightarrow> 'p engine \<Rightarrow> int \<Rightarrow> int \<Rightarrow> 'p engine" where
  "triggerForce_from env s force i =
     (if i \<le> indexLayerStack s
      then triggerForce_from env
             (if trigExtern (pluginLayers s ! nat i) then triggerLayer env s (u8 i) force else s)
             force (i + 1)
      else s)"
  by pat_completeness fast
termination
  by (relation "measure (\<lambda>(env, s, force, i). nat (indexLayerStack s + 1 - i))")
     (simp_all add: indexLayerStack_triggerLayer)

declare triggerForce_from.simps [simp del]

definition triggerForce :: "'p support \<Rightarrow> 'p engine \<Rightarrow> int \<Rightarrow> 'p engine" where
  "triggerForce env s force = triggerForce_from env (s\<lparr>curForce := force\<rparr>) force 0"

function triggerForce2_from :: "'p support \<Rightarrow> 'p engine \<Rightarrow> int \<Rightarrow> int \<Rightarrow> int \<Rightarrow> 'p engine" where
  "triggerForce2_from env s src force i =
     (if i \<le> indexLayerStack s
      then triggerForce2_from env
             (if src = trigSource (pluginLayers s ! nat i) then triggerLayer env s (u8 i) force else s)
             src force (i + 1)
      else s)"
  by pat_completeness fast
termination
  by (relation "measure (\<lambda>(env, s, src, force, i). nat (indexLayerStack s + 1 - i))")
     (simp_all add: indexLayerStack_triggerLayer)

declare triggerForce2_from.simps [simp del]

definition triggerForce2 :: "'p support \<Rightarrow> 'p engine \<Rightarrow> int \<Rightarrow> int \<Rightarrow> 'p engine" where
  "triggerForce2 env s src force = triggerForce2_from env s src force 0"

section \<open>Draw property routines\<close>

definition setMaxBrightness :: "'p engine \<Rightarrow> int \<Rightarrow> 'p engine" where
  "setMaxBrightness s percent = s\<lparr>eng_pcentBright := u8 percent\<rparr>"

definition setDelayOffset :: "'p engine \<Rightarrow> int \<Rightarrow> 'p engine" where
  "setDelayOffset s msecs = s\<lparr>delayOffset := s8 msecs\<rparr>"

definition setPropertyMode :: "'p engine \<Rightarrow> bool \<Rightarrow> 'p engine" where
  "setPropertyMode s enable = s\<lparr>externPropMode := enable\<rparr>"

definition SetPropColor_track :: "'p support \<Rightarrow> 'p engine \<Rightarrow> PluginTrack \<Rightarrow> PluginTrack" where
  "SetPropColor_track env s pTrack =
     (if disable pTrack \<noteq> 0 then pTrack
      else
        let d = draw pTrack;
            set_hue = (ctrlBits pTrack AND ExtControlBit_DegreeHue \<noteq> 0);
            d1 = (if set_hue then d\<lparr>degreeHue := externDegreeHue s\<rparr> else d);
            set_white = (ctrlBits pTrack AND ExtControlBit_PcentWhite \<noteq> 0);
            d2 = (if set_white then d1\<lparr>pcentWhite := externPcentWhite s\<rparr> else d1);
            d3 = (if set_hue \<or> set_white then makeColorVals env d2 else d2)
        in pTrack\<lparr>draw := d3\<rparr>)"

lemma indexTrackStack_upd_track:
  "indexTrackStack (upd_track i f s) = indexTrackStack s"
  by (simp add: upd_track_def)

function SetPropColor_from :: "'p support \<Rightarrow> 'p engine \<Rightarrow> int \<Rightarrow> 'p engine" where
  "SetPropColor_from env s i =
     (if i \<le> indexTrackStack s
      then SetPropColor_from env (upd_track i (SetPropColor_track env s) s) (i + 1)
      else s)"
  by pat_completeness fast
termination
  by (relation "measure (\<lambda>(env, s, i). nat (indexTrackStack s + 1 - i))")
     (simp_all add: indexTrackStack_upd_track)

declare SetPropColor_from.simps [simp del]

definition SetPropColor :: "'p support \<Rightarrow> 'p engine \<Rightarrow> 'p engine" where
  "SetPropColor env s = SetPropColor_from env s 0"

definition setColorProperty :: "'p support \<Rightarrow> 'p engine \<Rightarrow> int \<Rightarrow> int \<Rightarrow> 'p engine" where
  "setColorProperty env s hue_degree white_percent =
     (let s1 = s\<lparr>externDegreeHue := clipValue (s16 hue_degree) 0 (MAX_DEGREES_HUE env),
                 externPcentWhite := clipValue (u8 white_percent) 0 MAX_PERCENTAGE\<rparr>
      in if externPropMode s1 then SetPropColor env s1 else s1)"

definition SetPropCount_track :: "'p engine \<Rightarrow> PluginTrack \<Rightarrow> PluginTrack" where
  "SetPropCount_track s pTrack =
     (if disable pTrack \<noteq> 0 then pTrack
      else if ctrlBits pTrack AND ExtControlBit_PixCount \<noteq> 0
      then pTrack\<lparr>draw := (draw pTrack)
             \<lparr>pixCount := u16 (mapValue (externPcentCount s) 0 MAX_PERCENTAGE 1 (segCount pTrack))\<rparr>\<rparr>
      else pTrack)"

function SetPropCount_from :: "'p engine \<Rightarrow> int \<Rightarrow> 'p engine" where
  "SetPropCount_from s i =
     (if i \<le> indexTrackStack s
      then SetPropCount_from (upd_track i (SetPropCount_track s) s) (i + 1)
      else s)"
  by pat_completeness fast
termination
  by (relation "measure (\<lambda>(s, i). nat (indexTrackStack s + 1 - i))")
     (simp_all add: indexTrackStack_upd_track)

declare SetPropCount_from.simps [simp del]

definition SetPropCount :: "'p engine \<Rightarrow> 'p engine" where
  "SetPropCount s = SetPropCount_from s 0"

definition setCountProperty :: "'p engine \<Rightarrow> int \<Rightarrow> 'p engine" where
  "setCountProperty s pixcount_percent =
     (let s1 = s\<lparr>externPcentCount := clipValue (u8 pixcount_percent) 0 MAX_PERCENTAGE\<rparr>
      in if externPropMode s1 then SetPropCount s1 else s1)"

section \<open>The command handler\<close>

text \<open>
  \<open>pdraw\<close> points to the draw properties of the top track, and the trigger commands act
  on the top layer.
\<close>

definition pdraw :: "'p engine \<Rightarrow> DrawProps" where
  "pdraw s = draw (pluginTracks s ! nat (indexTrackStack s))"

definition upd_pdraw :: "(DrawProps \<Rightarrow> DrawProps) \<Rightarrow> 'p engine \<Rightarrow> 'p engine" where
  "upd_pdraw f s = upd_track (indexTrackStack s) (\<lambda>t. t\<lparr>draw := f (draw t)\<rparr>) s"

definition top_layer :: "'p engine \<Rightarrow> 'p PluginLayer" where
  "top_layer s = pluginLayers s ! nat (indexLayerStack s)"

definition upd_top_layer :: "('p PluginLayer \<Rightarrow> 'p PluginLayer) \<Rightarrow> 'p engine \<Rightarrow> 'p engine" where
  "upd_top_layer f s = upd_layer (indexLayerStack s) f s"

text \<open>The commands that need no track: \<open>X\<close>, \<open>Y\<close>, \<open>E\<close>, \<open>P\<close>.\<close>

definition cmd_X :: "'p engine \<Rightarrow> string \<Rightarrow> 'p engine" where
  "cmd_X s arg =
     (let pos = GetNumValue2 arg (numPixels s - 1)
      in if pos \<ge> 0 then s\<lparr>eng_segOffset := u16 pos\<rparr> else s\<lparr>eng_segOffset := 0\<rparr>)"

definition cmd_Y :: "'p engine \<Rightarrow> int \<Rightarrow> string \<Rightarrow> 'p engine \<times> int" where
  "cmd_Y s segindex arg =
     (let count = GetNumValue2 arg (numPixels s - eng_segOffset s)
      in if count > 0 then (s\<lparr>eng_segCount := u16 count\<rparr>, segindex + 1)
         else (s\<lparr>eng_segCount := numPixels s\<rparr>, segindex))"

definition cmd_E :: "'p support \<Rightarrow> 'p engine \<Rightarrow> int \<Rightarrow> string \<Rightarrow> Status \<times> 'p engine" where
  "cmd_E env s segindex arg =
     (let plugin = GetNumValue2 arg (MAX_PLUGIN_VALUE env)
      in if plugin \<ge> 0 then NewPluginLayer env s plugin (if segindex < 0 then 0 else segindex)
         else (Status_Error_BadVal, s))"

definition cmd_P :: "'p engine \<Rightarrow> 'p engine" where
  "cmd_P s = (clearStack s)\<lparr>timePrevUpdate := 0\<rparr>"

text \<open>The cases of the \<open>switch\<close>, entered only when there is a track.\<close>

definition cmd_J :: "'p engine \<Rightarrow> string \<Rightarrow> 'p engine" where
  "cmd_J s arg =
     upd_pdraw (\<lambda>d. d\<lparr>pixStart :=
        cdiv (GetNumValue3 arg 0 MAX_PERCENTAGE * (numPixels s - 1)) MAX_PERCENTAGE\<rparr>) s"

definition cmd_K :: "'p engine \<Rightarrow> string \<Rightarrow> 'p engine" where
  "cmd_K s arg =
     upd_pdraw (\<lambda>d. d\<lparr>pixLen :=
        cdiv (GetNumValue3 arg 0 MAX_PERCENTAGE * (numPixels s - 1)) MAX_PERCENTAGE + 1\<rparr>) s"

definition cmd_U :: "'p engine \<Rightarrow> string \<Rightarrow> 'p engine" where
  "cmd_U s arg = upd_pdraw (\<lambda>d. d\<lparr>goUpwards := GetBoolValue arg (goUpwards d)\<rparr>) s"

definition cmd_V :: "'p engine \<Rightarrow> string \<Rightarrow> 'p engine" where
  "cmd_V s arg =
     upd_pdraw (\<lambda>d. d\<lparr>orPixelValues := (\<not> GetBoolValue arg (\<not> orPixelValues d))\<rparr>) s"

definition cmd_H :: "'p support \<Rightarrow> 'p engine \<Rightarrow> string \<Rightarrow> 'p engine" where
  "cmd_H env s arg =
     upd_pdraw (\<lambda>d. makeColorVals env
        (d\<lparr>degreeHue := GetNumValue3 arg (degreeHue d) (MAX_DEGREES_HUE env)\<rparr>)) s"

definition cmd_W :: "'p support \<Rightarrow> 'p engine \<Rightarrow> string \<Rightarrow> 'p engine" where
  "cmd_W env s arg =
     upd_pdraw (\<lambda>d. makeColorVals env
        (d\<lparr>pcentWhite := GetNumValue3 arg (pcentWhite d) MAX_PERCENTAGE\<rparr>)) s"

definition cmd_B :: "'p support \<Rightarrow> 'p engine \<Rightarrow> string \<Rightarrow> 'p engine" where
  "cmd_B env s arg =
     upd_pdraw (\<lambda>d. makeColorVals env
        (d\<lparr>pcentBright := GetNumValue3 arg (pcentBright d) MAX_PERCENTAGE\<rparr>)) s"

definition cmd_C :: "'p engine \<Rightarrow> string \<Rightarrow> 'p engine" where
  "cmd_C s arg =
     (let curvalue = s16 (cdiv (pixCount (pdraw s) * MAX_PERCENTAGE) (eng_segCount s));
          percent = s16 (GetNumValue3 arg curvalue MAX_PERCENTAGE)
      in upd_pdraw (\<lambda>d. d\<lparr>pixCount :=
           mapValue percent 0 MAX_PERCENTAGE 1 (eng_segCount s)\<rparr>) s)"

definition cmd_D :: "'p support \<Rightarrow> 'p engine \<Rightarrow> string \<Rightarrow> 'p engine" where
  "cmd_D env s arg =
     upd_pdraw (\<lambda>d. d\<lparr>msecsDelay := GetNumValue3 arg (msecsDelay d) (MAX_DELAY_VALUE env)\<rparr>) s"

definition cmd_Q :: "'p support \<Rightarrow> 'p engine \<Rightarrow> string \<Rightarrow> 'p engine" where
  "cmd_Q env s arg =
     (let bits = s16 (GetNumValue2 arg ExtControlBit_All)
      in if bits \<ge> 0
         then
           let s1 = upd_track (indexTrackStack s) (\<lambda>t. t\<lparr>ctrlBits := u8 bits\<rparr>) s
           in if externPropMode s1
              then
                let s2 = (if bits AND ExtControlBit_DegreeHue \<noteq> 0
                          then upd_pdraw (\<lambda>d. d\<lparr>degreeHue := externDegreeHue s1\<rparr>) s1 else s1);
                    s3 = (if bits AND ExtControlBit_PcentWhite \<noteq> 0
                          then upd_pdraw (\<lambda>d. d\<lparr>pcentWhite := externPcentWhite s2\<rparr>) s2 else s2);
                    s4 = (if bits AND ExtControlBit_PixCount \<noteq> 0
                          then upd_pdraw (\<lambda>d. d\<lparr>pixCount :=
                                 mapValue (externPcentCount s3) 0 MAX_PERCENTAGE 1
                                   (segCount (pluginTracks s3 ! nat (indexTrackStack s3)))\<rparr>) s3
                          else s3)
                in upd_pdraw (makeColorVals env) s4
              else s1
         else s)"

definition cmd_I :: "'p engine \<Rightarrow> string \<Rightarrow> 'p engine" where
  "cmd_I s arg =
     upd_top_layer (\<lambda>l. l\<lparr>trigExtern :=
        (if starts_with_digit arg then GetBoolValue arg False else True)\<rparr>) s"

definition cmd_A :: "'p engine \<Rightarrow> string \<Rightarrow> 'p engine" where
  "cmd_A s arg = upd_top_layer (\<lambda>l. l\<lparr>trigSource := u8 (GetNumValue3 arg 0 MAX_BYTE_VALUE)\<rparr>) s"

definition cmd_F :: "'p engine \<Rightarrow> string \<Rightarrow> 'p engine" where
  "cmd_F s arg =
     upd_top_layer (\<lambda>l. l\<lparr>trigForce :=
        (if starts_with_digit arg then s16 (GetNumValue3 arg 0 MAX_FORCE_VALUE) else - 1)\<rparr>) s"

definition cmd_N :: "'p engine \<Rightarrow> string \<Rightarrow> 'p engine" where
  "cmd_N s arg =
     (let s1 = upd_top_layer (\<lambda>l. l\<lparr>trigCount := s16 (GetNumValue3 arg 0 MAX_WORD_VALUE)\<rparr>) s
      in if trigCount (top_layer s1) = 0
         then upd_top_layer (\<lambda>l. l\<lparr>trigCount := - 1\<rparr>) s1 else s1)"

definition cmd_O :: "'p engine \<Rightarrow> string \<Rightarrow> 'p engine" where
  "cmd_O s arg =
     (let min = u16 (GetNumValue3 arg 1 MAX_WORD_VALUE)
      in upd_top_layer (\<lambda>l. l\<lparr>trigDelayMin := (if min \<noteq> 0 then min else 1)\<rparr>) s)"

definition cmd_T :: "'p support \<Rightarrow> 'p engine \<Rightarrow> string \<Rightarrow> 'p engine" where
  "cmd_T env s arg =
     (let force0 = trigForce (top_layer s);
          force = (if force0 < 0 then s16 (random_value s 0 (MAX_FORCE_VALUE + 1)) else force0);
          s1 = (if force0 < 0 then random_next s 0 (MAX_FORCE_VALUE + 1) else s);
          s2 = (if starts_with_digit arg
                then
                  let sa = upd_top_layer
                             (\<lambda>l. l\<lparr>trigDelayRange := u16 (GetNumValue3 arg 0 MAX_WORD_VALUE)\<rparr>) s1;
                      la = top_layer sa;
                      lo = trigDelayMin la;
                      hi = trigDelayMin la + trigDelayRange la + 1
                  in upd_top_layer
                       (\<lambda>l. l\<lparr>trigTimeMsecs := u32 (clock sa + 1000 * random_value sa lo hi)\<rparr>)
                       (random_next sa lo hi)
                else s1)
      in triggerLayer env s2 (u8 (indexLayerStack s2)) force)"

definition cmd_G :: "'p engine \<Rightarrow> 'p engine" where
  "cmd_G s =
     (if indexTrackEnable s \<noteq> indexTrackStack s
      then s\<lparr>indexTrackEnable := indexTrackStack s\<rparr> else s)"

text \<open>
  One pass of the \<open>do\<close> loop for the token \<open>cmd\<close>: the status, the engine and the local
  variable \<open>segindex\<close> after it. A token is never empty.
\<close>

definition exec_cmd ::
  "'p support \<Rightarrow> 'p engine \<Rightarrow> int \<Rightarrow> string \<Rightarrow> Status \<times> 'p engine \<times> int" where
  "exec_cmd env s segindex cmd =
     (let c = hd cmd; arg = tl cmd in
      if c = CHR ''X'' then (Status_Success, cmd_X s arg, segindex)
      else if c = CHR ''Y''
        then (Status_Success, fst (cmd_Y s segindex arg), snd (cmd_Y s segindex arg))
      else if c = CHR ''E''
        then (fst (cmd_E env s segindex arg), snd (cmd_E env s segindex arg), segindex)
      else if c = CHR ''P'' then (Status_Success, cmd_P s, segindex)
      else if indexTrackStack s \<ge> 0 then
        (if c = CHR ''J'' then (Status_Success, cmd_J s arg, segindex)
         else if c = CHR ''K'' then (Status_Success, cmd_K s arg, segindex)
         else if c = CHR ''U'' then (Status_Success, cmd_U s arg, segindex)
         else if c = CHR ''V'' then (Status_Success, cmd_V s arg, segindex)
         else if c = CHR ''H'' then (Status_Success, cmd_H env s arg, segindex)
         else if c = CHR ''W'' then (Status_Success, cmd_W env s arg, segindex)
         else if c = CHR ''B'' then (Status_Success, cmd_B env s arg, segindex)
         else if c = CHR ''C'' then (Status_Success, cmd_C s arg, segindex)
         else if c = CHR ''D'' then (Status_Success, cmd_D env s arg, segindex)
         else if c = CHR ''Q'' then (Status_Success, cmd_Q env s arg, segindex)
         else if c = CHR ''I'' then (Status_Success, cmd_I s arg, segindex)
         else if c = CHR ''A'' then (Status_Success, cmd_A s arg, segindex)
         else if c = CHR ''F'' then (Status_Success, cmd_F s arg, segindex)
         else if c = CHR ''N'' then (Status_Success, cmd_N s arg, segindex)
         else if c = CHR ''O'' then (Status_Success, cmd_O s arg, segindex)
         else if c = CHR ''T'' then (Status_Success, cmd_T env s arg, segindex)
         else if c = CHR ''G'' then (Status_Success, cmd_G s, segindex)
         else (Status_Error_BadCmd, s, segindex))
      else (Status_Error_BadCmd, s, segindex))"

text \<open>The loop over the tokens stops at the first status other than success.\<close>

fun exec_tokens :: "'p support \<Rightarrow> 'p engine \<Rightarrow> int \<Rightarrow> string list \<Rightarrow> Status \<times> 'p engine" where
  "exec_tokens env s segindex [] = (Status_Success, s)"
| "exec_tokens env s segindex (cmd # rest) =
     (let r = exec_cmd env s segindex cmd
      in if fst r \<noteq> Status_Success then (fst r, fst (snd r))
         else exec_tokens env (fst (snd r)) (snd (snd r)) rest)"

definition execCmdStr :: "'p support \<Rightarrow> 'p engine \<Rightarrow> string \<Rightarrow> Status \<times> 'p engine" where
  "execCmdStr env s cmdstr = exec_tokens env s (- 1) (cmd_tokens cmdstr)"

section \<open>The renderer\<close>

text \<open>
  \<open>updateEffects\<close>, first loop: the predraw effects of the track \<open>i\<close> take their next
  step with a null draw sink, so their pixel writes are dropped.
\<close>

definition predraw_step :: "'p support \<Rightarrow> int \<Rightarrow> 'p engine \<Rightarrow> int \<Rightarrow> 'p engine" where
  "predraw_step env i s j =
     (let l = pluginLayers s ! nat j
      in if track l = i \<and> trigActive l \<and> \<not> is_redraw env (obj l)
         then
           let res = nextstep env (obj l) (draw (pluginTracks s ! nat i))
           in log_event (NextStep (nat j))
                (upd_layer j (\<lambda>l. l\<lparr>obj := fst res\<rparr>)
                   (upd_track i (\<lambda>t. t\<lparr>draw := fst (snd res)\<rparr>) s))
         else s)"

lemma indexLayerStack_predraw_step:
  "indexLayerStack (predraw_step env i s j) = indexLayerStack s"
  by (simp add: predraw_step_def upd_layer_def upd_track_def log_event_def Let_def)

function predraw_from :: "'p support \<Rightarrow> int \<Rightarrow> 'p engine \<Rightarrow> int \<Rightarrow> 'p engine" where
  "predraw_from env i s j =
     (if j \<le> indexLayerStack s
      then predraw_from env i (predraw_step env i s j) (j + 1)
      else s)"
  by pat_completeness fast
termination
  by (relation "measure (\<lambda>(env, i, s, j). nat (indexLayerStack s + 1 - j))")
     (simp_all add: indexLayerStack_predraw_step)

declare predraw_from.simps [simp del]

text \<open>
  The body of the first loop for the track \<open>i\<close>, and whether it drew. \<open>redraw_now\<close> is
  the part after the three tests: the predraw effects, the restored properties,
  the step of the drawing effect into the track's buffer (\<open>redraw_nextstep\<close>) and the
  time of the next redraw (\<open>redraw_schedule\<close>).
\<close>

definition redraw_nextstep :: "'p support \<Rightarrow> 'p engine \<Rightarrow> int \<Rightarrow> 'p engine" where
  "redraw_nextstep env s i =
     (let pTrack = pluginTracks s ! nat i;
          res = nextstep env (obj (pluginLayers s ! nat (layer pTrack))) (draw pTrack)
      in log_event (NextStep (nat (layer pTrack)))
           (upd_layer (layer pTrack) (\<lambda>l. l\<lparr>obj := fst res\<rparr>)
              (upd_track i
                 (\<lambda>t. t\<lparr>draw := fst (snd res),
                         pRedrawBuff := map_option (snd (snd res)) (pRedrawBuff t)\<rparr>)
                 (s\<lparr>pDrawPixels := SinkDisplay\<rparr>))))"

definition redraw_schedule :: "'p engine \<Rightarrow> int \<Rightarrow> 'p engine" where
  "redraw_schedule s i =
     (let addtime = s16 (msecsDelay (draw (pluginTracks s ! nat i)) + delayOffset s)
      in upd_track i
           (\<lambda>t. t\<lparr>msTimeRedraw :=
                    u32 (timePrevUpdate s + (if addtime \<le> 0 then 1 else addtime))\<rparr>) s)"

definition redraw_now :: "'p support \<Rightarrow> 'p engine \<Rightarrow> int \<Rightarrow> 'p engine" where
  "redraw_now env s i =
     (let pTrack = pluginTracks s ! nat i;
          pixCount0 = (if externPropMode s then pixCount (draw pTrack) else 0);
          degreeHue0 = (if externPropMode s then degreeHue (draw pTrack) else 0);
          pcentWhite0 = (if externPropMode s then pcentWhite (draw pTrack) else 0);
          s2 = predraw_from env i (s\<lparr>pDrawPixels := SinkNull\<rparr>) 0;
          s3 = (if externPropMode s2
                then upd_track i (\<lambda>t. RestorePropVals env t pixCount0 degreeHue0 pcentWhite0) s2
                else s2)
      in redraw_schedule (redraw_nextstep env s3 i) i)"

definition redraw_track :: "'p support \<Rightarrow> bool \<Rightarrow> 'p engine \<Rightarrow> int \<Rightarrow> 'p engine \<times> bool" where
  "redraw_track env rollover s i =
     (if \<not> is_redraw env (obj (pluginLayers s ! nat (layer (pluginTracks s ! nat i))))
      then (s, False)
      else
        let s1 = (if rollover then upd_track i (\<lambda>t. t\<lparr>msTimeRedraw := timePrevUpdate s\<rparr>) s
                  else s);
            pTrack = pluginTracks s1 ! nat i
        in if \<not> trigActive (pluginLayers s1 ! nat (layer pTrack)) then (s1, False)
           else if msTimeRedraw pTrack > timePrevUpdate s1 then (s1, False)
           else (redraw_now env s1 i, True))"

lemma indexTrackStack_predraw_step:
  "indexTrackStack (predraw_step env i s j) = indexTrackStack s"
  by (simp add: predraw_step_def upd_layer_def upd_track_def log_event_def Let_def)

lemma indexTrackStack_predraw_from:
  "indexTrackStack (predraw_from env i s j) = indexTrackStack s"
proof (induction env i s j rule: predraw_from.induct)
  case (1 env i s j)
  then show ?case
    by (subst predraw_from.simps) (simp add: indexTrackStack_predraw_step)
qed

lemma indexTrackStack_redraw_nextstep:
  "indexTrackStack (redraw_nextstep env s i) = indexTrackStack s"
  by (simp add: redraw_nextstep_def upd_layer_def upd_track_def log_event_def Let_def)

lemma indexTrackStack_redraw_schedule:
  "indexTrackStack (redraw_schedule s i) = indexTrackStack s"
  by (simp add: redraw_schedule_def upd_track_def Let_def)

lemma indexTrackStack_redraw_now:
  "indexTrackStack (redraw_now env s i) = indexTrackStack s"
  by (simp add: redraw_now_def Let_def indexTrackStack_redraw_schedule
      indexTrackStack_redraw_nextstep indexTrackStack_upd_track indexTrackStack_predraw_from)

lemma indexTrackStack_redraw_track:
  "indexTrackStack (fst (redraw_track env rollover s i)) = indexTrackStack s"
  by (simp add: redraw_track_def Let_def indexTrackStack_redraw_now indexTrackStack_upd_track)

function redraw_from ::
  "'p support \<Rightarrow> bool \<Rightarrow> 'p engine \<Rightarrow> int \<Rightarrow> bool \<Rightarrow> 'p engine \<times> bool" where
  "redraw_from env rollover s i doshow =
     (if i \<le> indexTrackStack s
      then if i > indexTrackEnable s then (s, doshow)
           else redraw_from env rollover (fst (redraw_track env rollover s i)) (i + 1)
                  (doshow \<or> snd (redraw_track env rollover s i))
      else (s, doshow))"
  by pat_completeness fast
termination
  by (relation "measure (\<lambda>(env, rollover, s, i, doshow). nat (indexTrackStack s + 1 - i))")
     (simp_all add: indexTrackStack_redraw_track)

declare redraw_from.simps [simp del]

text \<open>
  \<open>updateEffects\<close>, second loop: the track buffers are merged into the display buffer.
  \<open>blend_pixel\<close> is the body of the \<open>while\<close> loop up to the direction test, for the
  display index \<open>x\<close> and the buffer index \<open>y\<close>; an access outside either array has no
  defined result (\<open>None\<close>). The loop itself ends only when \<open>pix\<close> meets its end point, so
  \<open>merge_loop\<close> is a partial function whose value \<open>None\<close> also stands for not returning.
\<close>

definition blend_pixel :: "bool \<Rightarrow> byte list \<Rightarrow> byte list \<Rightarrow> int \<Rightarrow> int \<Rightarrow> byte list option" where
  "blend_pixel orvals buf disp x y =
     (if \<not> (0 \<le> y \<and> nat y + 2 < length buf) then None
      else if orvals
      then (if \<not> (0 \<le> x \<and> nat x + 2 < length disp) then None
            else Some (disp[nat x := disp ! nat x OR buf ! nat y,
                            nat x + 1 := disp ! (nat x + 1) OR buf ! (nat y + 1),
                            nat x + 2 := disp ! (nat x + 2) OR buf ! (nat y + 2)]))
      else if buf ! nat y \<noteq> 0 \<or> buf ! (nat y + 1) \<noteq> 0 \<or> buf ! (nat y + 2) \<noteq> 0
      then (if \<not> (0 \<le> x \<and> nat x + 2 < length disp) then None
            else Some (disp[nat x := buf ! nat y,
                            nat x + 1 := buf ! (nat y + 1),
                            nat x + 2 := buf ! (nat y + 2)]))
      else Some disp)"

partial_function (option) merge_loop ::
  "DrawProps \<Rightarrow> byte list \<Rightarrow> int \<Rightarrow> int \<Rightarrow> int \<Rightarrow> int \<Rightarrow> int \<Rightarrow> int \<Rightarrow> byte list
   \<Rightarrow> byte list option" where
  "merge_loop d buf pixlast pixstart pixend pix x y disp =
     (case blend_pixel (orPixelValues d) buf disp x y of
        None \<Rightarrow> None
      | Some disp' \<Rightarrow>
          if goUpwards d
          then (if pix = pixend then Some disp'
                else merge_loop d buf pixlast pixstart pixend
                       (if pix \<ge> pixlast then 0 else s16 (pix + 1))
                       (if pix \<ge> pixlast then 0 else s16 (x + 3))
                       (if y \<ge> pixlast * 3 then 0 else s16 (y + 3))
                       disp')
          else (if pix = pixstart then Some disp'
                else merge_loop d buf pixlast pixstart pixend
                       (if pix \<le> 0 then pixlast else s16 (pix - 1))
                       (if pix \<le> 0 then s16 (pixlast * 3) else s16 (x - 3))
                       (if y \<ge> pixlast * 3 then 0 else s16 (y + 3))
                       disp'))"

declare merge_loop.simps [code]

definition merge_track :: "'p engine \<Rightarrow> int \<Rightarrow> byte list \<Rightarrow> byte list option" where
  "merge_track s i disp =
     (let pTrack = pluginTracks s ! nat i;
          d = draw pTrack;
          pixlast = s16 (numPixels s - 1);
          pixstart0 = s16 (segOffset pTrack + pixStart d);
          pixstart = (if pixstart0 > pixlast then s16 (pixstart0 - (pixlast + 1)) else pixstart0);
          pixend0 = s16 (pixstart + pixLen d - 1);
          pixend = (if pixend0 > pixlast then s16 (pixend0 - (pixlast + 1)) else pixend0);
          pix = (if goUpwards d then pixstart else pixend)
      in case pRedrawBuff pTrack of
           None \<Rightarrow> None
         | Some buf \<Rightarrow>
             merge_loop d buf pixlast pixstart pixend pix (s16 (pix * 3)) (s16 (pixStart d * 3))
               disp)"

function merge_from :: "'p support \<Rightarrow> 'p engine \<Rightarrow> int \<Rightarrow> byte list \<Rightarrow> byte list option" where
  "merge_from env s i disp =
     (if i \<le> indexTrackStack s
      then if i > indexTrackEnable s then Some disp
           else if \<not> is_redraw env (obj (pluginLayers s ! nat (layer (pluginTracks s ! nat i))))
           then merge_from env s (i + 1) disp
           else (case merge_track s i disp of
                   None \<Rightarrow> None
                 | Some disp' \<Rightarrow> merge_from env s (i + 1) disp')
      else Some disp)"
  by pat_completeness fast
termination
  by (relation "measure (\<lambda>(env, s, i, disp). nat (indexTrackStack s + 1 - i))") simp_all

declare merge_from.simps [simp del]

text \<open>
  \<open>updateEffects\<close>: whether the pixels have changed, and the engine after the call;
  \<open>None\<close> if the merge has no result.
\<close>

definition updateEffects :: "'p support \<Rightarrow> 'p engine \<Rightarrow> (bool \<times> 'p engine) option" where
  "updateEffects env s =
     (let doshow0 = (timePrevUpdate s = 0);
          time = clock s;
          rollover = (timePrevUpdate s > time);
          s1 = CheckAutoTrigger env rollover (s\<lparr>timePrevUpdate := time\<rparr>);
          r = redraw_from env rollover s1 0 doshow0;
          s2 = fst r
      in if snd r
         then (case merge_from env s2 0 (replicate (nat (numPixels s2 * 3)) 0) of
                 None \<Rightarrow> None
               | Some disp \<Rightarrow> Some (True, s2\<lparr>pDisplayPixels := disp\<rparr>))
         else Some (False, s2))"

section \<open>The plugin factory and an example engine\<close>

text \<open>
  The plugin classes of the factory. \<open>PluginFactoryCore::makePlugin\<close> makes the drawing
  effects; \<open>PluginFactoryAdv::makePlugin\<close> makes the predraw effects and falls back on the
  core factory.
\<close>

datatype pnp =
  PNP_DrawAll | PNP_DrawPush | PNP_DrawStep | PNP_LightWave | PNP_CometHeads
| PNP_FerrisWheel | PNP_BlockScanner | PNP_Twinkle | PNP_Blinky | PNP_Noise
| PNP_HueSet | PNP_HueRotate | PNP_ColorMeld | PNP_ColorModify | PNP_ColorRandom
| PNP_CountSet | PNP_DelaySurge | PNP_BrightWave | PNP_WinExpander | PNP_FlipDirection

definition PluginFactoryCore_makePlugin :: "int \<Rightarrow> pnp option" where
  "PluginFactoryCore_makePlugin plugin =
     (if plugin = 0 then Some PNP_DrawAll
      else if plugin = 1 then Some PNP_DrawPush
      else if plugin = 2 then Some PNP_DrawStep
      else if plugin = 10 then Some PNP_LightWave
      else if plugin = 20 then Some PNP_CometHeads
      else if plugin = 30 then Some PNP_FerrisWheel
      else if plugin = 40 then Some PNP_BlockScanner
      else if plugin = 50 then Some PNP_Twinkle
      else if plugin = 51 then Some PNP_Blinky
      else if plugin = 52 then Some PNP_Noise
      else None)"

definition PluginFactoryAdv_makePlugin :: "int \<Rightarrow> pnp option" where
  "PluginFactoryAdv_makePlugin plugin =
     (if plugin = 100 then Some PNP_HueSet
      else if plugin = 101 then Some PNP_HueRotate
      else if plugin = 110 then Some PNP_ColorMeld
      else if plugin = 111 then Some PNP_ColorModify
      else if plugin = 112 then Some PNP_ColorRandom
      else if plugin = 120 then Some PNP_CountSet
      else if plugin = 131 then Some PNP_DelaySurge
      else if plugin = 142 then Some PNP_BrightWave
      else if plugin = 150 then Some PNP_WinExpander
      else if plugin = 160 then Some PNP_FlipDirection
      else PluginFactoryCore_makePlugin plugin)"

text \<open>
  An example of the collaborators, for concrete runs: the advanced factory; the drawing
  effects have the redraw bit in their type, as \<open>PNP_CometHeads::gettype\<close> has, and the
  predraw effects do not; the callbacks are stand-ins that leave the plugin, the draw
  properties and the pixels as they are. The three bounds are example values.
\<close>

definition pnp_gettype :: "pnp \<Rightarrow> int" where
  "pnp_gettype p =
     (if p \<in> {PNP_HueSet, PNP_HueRotate, PNP_ColorMeld, PNP_ColorModify, PNP_ColorRandom,
               PNP_CountSet, PNP_DelaySurge, PNP_BrightWave, PNP_WinExpander,
               PNP_FlipDirection}
      then 0 else PLUGIN_TYPE_REDRAW)"

definition demo_env :: "pnp support" where
  "demo_env =
     \<lparr> MAX_DEGREES_HUE = 359,
       MAX_DELAY_VALUE = 60,
       MAX_PLUGIN_VALUE = 32000,
       makePlugin = PluginFactoryAdv_makePlugin,
       gettype = pnp_gettype,
       begin_plugin = (\<lambda>p id pixlen. p),
       trigger = (\<lambda>p d force. (p, d, \<lambda>px. px)),
       nextstep = (\<lambda>p d. (p, d, \<lambda>px. px)),
       makeColors = (\<lambda>hue white bright. (0, 0, 0)) \<rparr>"

definition zero_draw :: DrawProps where
  "zero_draw =
     \<lparr> pixStart = 0, pixLen = 0, pixCount = 0, degreeHue = 0, pcentWhite = 0,
       pcentBright = 0, col_r = 0, col_g = 0, col_b = 0, msecsDelay = 0,
       goUpwards = False, orPixelValues = False \<rparr>"

definition zero_layer :: "pnp PluginLayer" where
  "zero_layer =
     \<lparr> trigTimeMsecs = 0, trigCount = 0, trigDelayMin = 0, trigDelayRange = 0,
       trigForce = 0, trigActive = False, trigExtern = False, trigSource = 0, track = 0,
       pPlugin = 0, obj = PNP_DrawAll \<rparr>"

definition zero_track :: PluginTrack where
  "zero_track =
     \<lparr> msTimeRedraw = 0, pRedrawBuff = None, draw = zero_draw, layer = 0, ctrlBits = 0,
       segIndex = 0, disable = 0, segOffset = 0, segCount = 0 \<rparr>"

text \<open>
  The engine of the end-to-end scenarios: a strip of 10 pixels, upwards, 4 layers and
  3 tracks.
\<close>

definition demo_engine :: "pnp engine" where
  "demo_engine =
     PixelNutEngine (Some (replicate 30 0)) 10 True 4 3 True True zero_layer zero_track 0 0 0"

text \<open>Running several command strings one after the other, while they succeed.\<close>

fun exec_all :: "'p support \<Rightarrow> 'p engine \<Rightarrow> string list \<Rightarrow> Status \<times> 'p engine" where
  "exec_all env s [] = (Status_Success, s)"
| "exec_all env s (c # cs) =
     (if fst (execCmdStr env s c) \<noteq> Status_Success then execCmdStr env s c
      else exec_all env (snd (execCmdStr env s c)) cs)"

section \<open>Notions for the claims\<close>

text \<open>The live part of the two stacks: the slots up to the stack index.\<close>

definition live_layers :: "'p engine \<Rightarrow> 'p PluginLayer list" where
  "live_layers s = take (nat (indexLayerStack s + 1)) (pluginLayers s)"

definition live_tracks :: "'p engine \<Rightarrow> PluginTrack list" where
  "live_tracks s = take (nat (indexTrackStack s + 1)) (pluginTracks s)"

text \<open>
  What the spec says of a rejected \<open>add_layer\<close>: the rejections, the status of each, and
  the events of a rejected call (a plugin that was made is deleted).
\<close>

definition spec_rejection :: "'p support \<Rightarrow> 'p engine \<Rightarrow> int \<Rightarrow> bool" where
  "spec_rejection env s plugin =
     (indexLayerStack s + 1 \<ge> maxPluginLayers s \<or>
      (case makePlugin env plugin of
         None \<Rightarrow> True
       | Some p \<Rightarrow>
           if is_redraw env p
           then indexTrackStack s + 1 \<ge> maxPluginTracks s \<or> \<not> malloc_ok s
           else indexTrackStack s < 0))"

definition spec_reject_status :: "'p support \<Rightarrow> 'p engine \<Rightarrow> int \<Rightarrow> Status" where
  "spec_reject_status env s plugin =
     (if indexLayerStack s + 1 \<ge> maxPluginLayers s then Status_Error_Memory
      else case makePlugin env plugin of
        None \<Rightarrow> Status_Error_BadVal
      | Some p \<Rightarrow> if is_redraw env p then Status_Error_Memory else Status_Error_BadCmd)"

definition spec_reject_events :: "'p support \<Rightarrow> 'p engine \<Rightarrow> int \<Rightarrow> event list" where
  "spec_reject_events env s plugin =
     (if indexLayerStack s + 1 \<ge> maxPluginLayers s then []
      else case makePlugin env plugin of
        None \<Rightarrow> []
      | Some p \<Rightarrow>
          if is_redraw env p \<and> indexTrackStack s + 1 < maxPluginTracks s
          then [New (next_ptr s), Begin (next_ptr s) (u8 (indexLayerStack s + 1)) (eng_segCount s),
                Delete (next_ptr s)]
          else [New (next_ptr s), Delete (next_ptr s)])"

text \<open>The engine after the new layer (and track) is pushed and the plugin has begun.\<close>

definition pushed :: "'p support \<Rightarrow> 'p engine \<Rightarrow> 'p \<Rightarrow> int \<Rightarrow> 'p engine" where
  "pushed env s p segindex =
     (let li = indexLayerStack s + 1;
          ti = (if is_redraw env p then indexTrackStack s + 1 else indexTrackStack s);
          sx = s\<lparr>next_ptr := Suc (next_ptr s), trace := trace s @ [New (next_ptr s)],
                 indexLayerStack := li, indexTrackStack := ti\<rparr>
      in s\<lparr> next_ptr := Suc (next_ptr s),
            trace := trace s @ [New (next_ptr s), Begin (next_ptr s) (u8 li) (eng_segCount s)],
            indexLayerStack := li,
            indexTrackStack := ti,
            pluginTracks :=
              (if is_redraw env p
               then (pluginTracks s)[nat ti := new_track env sx segindex]
               else pluginTracks s),
            pluginLayers :=
              (pluginLayers s)
                [nat li := (new_layer sx (next_ptr s) p)
                   \<lparr>obj := begin_plugin env p (u8 li) (eng_segCount s)\<rparr>] \<rparr>)"

text \<open>
  The invariant of the two stacks: the capacities are those of the arrays; the indices
  are within them; there is no layer without a track; each track up to the stack index
  has a buffer and names its first layer, the first track's being layer 0 and each
  later track's being above the one before.
\<close>

definition stack_inv :: "'p engine \<Rightarrow> bool" where
  "stack_inv s =
     (maxPluginLayers s \<le> 256 \<and>
      length (pluginLayers s) = nat (maxPluginLayers s) \<and>
      length (pluginTracks s) = nat (maxPluginTracks s) \<and>
      - 1 \<le> indexLayerStack s \<and> indexLayerStack s < maxPluginLayers s \<and>
      - 1 \<le> indexTrackStack s \<and> indexTrackStack s < maxPluginTracks s \<and>
      (indexTrackStack s < 0 \<longrightarrow> indexLayerStack s < 0) \<and>
      (0 \<le> indexTrackStack s \<longrightarrow>
         layer (pluginTracks s ! 0) = 0 \<and>
         layer (pluginTracks s ! nat (indexTrackStack s)) \<le> indexLayerStack s) \<and>
      (\<forall>t. Suc t < nat (indexTrackStack s + 1) \<longrightarrow>
         layer (pluginTracks s ! t) < layer (pluginTracks s ! Suc t)) \<and>
      (\<forall>t. t < nat (indexTrackStack s + 1) \<longrightarrow> pRedrawBuff (pluginTracks s ! t) \<noteq> None))"

text \<open>Two engines whose stacks have the same shape: only the contents of the slots differ.\<close>

definition same_shape :: "'p engine \<Rightarrow> 'p engine \<Rightarrow> bool" where
  "same_shape s s' =
     (maxPluginLayers s' = maxPluginLayers s \<and> maxPluginTracks s' = maxPluginTracks s \<and>
      length (pluginLayers s') = length (pluginLayers s) \<and>
      length (pluginTracks s') = length (pluginTracks s) \<and>
      indexLayerStack s' = indexLayerStack s \<and> indexTrackStack s' = indexTrackStack s \<and>
      numPixels s' = numPixels s \<and>
      (\<forall>t. layer (pluginTracks s' ! t) = layer (pluginTracks s ! t)) \<and>
      (\<forall>t. (pRedrawBuff (pluginTracks s' ! t) = None) = (pRedrawBuff (pluginTracks s ! t) = None)))"

text \<open>
  The engines a program can reach: it constructs an engine successfully (layer and track
  numbers are bytes, so at most 256 layers), and then calls the public functions in any
  order, while the clock, the random source and the allocator do as they please.
\<close>

inductive reachable :: "'p support \<Rightarrow> 'p engine \<Rightarrow> bool" for env :: "'p support" where
  constructed:
    "0 \<le> num_layers \<Longrightarrow> num_layers \<le> 256 \<Longrightarrow> 0 \<le> num_tracks \<Longrightarrow> num_pixels \<noteq> 0 \<Longrightarrow>
     reachable env (PixelNutEngine (Some px) num_pixels goup num_layers num_tracks True True
       junk_layer junk_track junk_hue junk_white junk_count)"
| surroundings:
    "reachable env s \<Longrightarrow> reachable env (s\<lparr>clock := t, rand_src := r, alloc_src := a\<rparr>)"
| execCmdStr: "reachable env s \<Longrightarrow> reachable env (snd (execCmdStr env s cmdstr))"
| updateEffects: "reachable env s \<Longrightarrow> updateEffects env s = Some (b, s') \<Longrightarrow> reachable env s'"
| clearStack: "reachable env s \<Longrightarrow> reachable env (clearStack s)"
| triggerForce: "reachable env s \<Longrightarrow> reachable env (triggerForce env s force)"
| triggerForce2: "reachable env s \<Longrightarrow> reachable env (triggerForce2 env s src force)"
| triggerLayer:
    "reachable env s \<Longrightarrow> 0 \<le> li \<Longrightarrow> li \<le> indexLayerStack s \<Longrightarrow>
     reachable env (triggerLayer env s li force)"
| setMaxBrightness: "reachable env s \<Longrightarrow> reachable env (setMaxBrightness s percent)"
| setDelayOffset: "reachable env s \<Longrightarrow> reachable env (setDelayOffset s msecs)"
| setPropertyMode: "reachable env s \<Longrightarrow> reachable env (setPropertyMode s enable)"
| setColorProperty: "reachable env s \<Longrightarrow> reachable env (setColorProperty env s hue white)"
| setCountProperty: "reachable env s \<Longrightarrow> reachable env (setCountProperty s pct)"

text \<open>
  The events of \<open>clearStack\<close>: for the track \<open>t\<close>, with \<open>upper\<close> the value of
  \<open>indexLayerStack\<close> when the outer loop reaches it, and for the tracks below \<open>n\<close>.
\<close>

definition track_events :: "'p PluginLayer list \<Rightarrow> PluginTrack list \<Rightarrow> nat \<Rightarrow> int \<Rightarrow> event list" where
  "track_events ls ts t upper =
     map (\<lambda>j. Delete (pPlugin (ls ! j))) [nat (layer (ts ! t)) ..< nat upper] @
     (if pRedrawBuff (ts ! t) \<noteq> None then [Free t] else [])"

fun clear_events :: "'p PluginLayer list \<Rightarrow> PluginTrack list \<Rightarrow> nat \<Rightarrow> int \<Rightarrow> event list" where
  "clear_events ls ts 0 upper = []"
| "clear_events ls ts (Suc t) upper =
     track_events ls ts t upper @ clear_events ls ts t (min upper (layer (ts ! t)))"

text \<open>The plugins deleted and the track buffers freed, in the order of the events.\<close>

fun deleted_plugins :: "event list \<Rightarrow> nat list" where
  "deleted_plugins [] = []"
| "deleted_plugins (Delete p # es) = p # deleted_plugins es"
| "deleted_plugins (e # es) = deleted_plugins es"

fun freed_tracks :: "event list \<Rightarrow> nat list" where
  "freed_tracks [] = []"
| "freed_tracks (Free t # es) = t # freed_tracks es"
| "freed_tracks (e # es) = freed_tracks es"


subsection \<open>Automatic triggering\<close>

text \<open>The number of times the layer \<open>k\<close> was triggered, in a trace.\<close>

fun triggers_of :: "nat \<Rightarrow> event list \<Rightarrow> nat" where
  "triggers_of k [] = 0"
| "triggers_of k (Trigger j f # es) = (if j = k then 1 else 0) + triggers_of k es"
| "triggers_of k (e # es) = triggers_of k es"


text \<open>
  The loop of \<open>CheckAutoTrigger\<close> reaches the layer \<open>j\<close>: no layer up to \<open>j\<close> is on a track
  beyond the enabled ones.
\<close>

definition within_frontier :: "'p engine \<Rightarrow> nat \<Rightarrow> bool" where
  "within_frontier s j =
     list_all (\<lambda>i. track (pluginLayers s ! i) \<le> indexTrackEnable s) [0 ..< Suc j]"

text \<open>
  What the loop of \<open>CheckAutoTrigger\<close> reads and writes for the layer \<open>j\<close>: whether it
  is active, its count, its trigger time, its two delays, and the number of its triggers
  so far.
\<close>

type_synonym trig_view = "bool \<times> int \<times> int \<times> int \<times> int \<times> nat"

definition trig_view :: "nat \<Rightarrow> 'p engine \<Rightarrow> trig_view" where
  "trig_view j s =
     (trigActive (pluginLayers s ! j), trigCount (pluginLayers s ! j),
      trigTimeMsecs (pluginLayers s ! j), trigDelayMin (pluginLayers s ! j),
      trigDelayRange (pluginLayers s ! j), triggers_of j (trace s))"

text \<open>
  One pass of the loop for a layer, at the time \<open>t\<close>, from the view before it to the view
  after it; the delay drawn at random is some number of seconds within the layer's range.
\<close>

fun layer_pass :: "bool \<Rightarrow> int \<Rightarrow> trig_view \<Rightarrow> trig_view \<Rightarrow> bool" where
  "layer_pass rollover t (a, c, tm, mn, rg, n) (a', c', tm', mn', rg', n') =
     (mn' = mn \<and> rg' = rg \<and>
      (if a \<and> c \<noteq> 0 \<and> (if rollover \<and> tm > 0 then t else tm) > 0 \<and>
          (if rollover \<and> tm > 0 then t else tm) \<le> t
       then a' \<and> n' = n + 1 \<and> c' = (if c > 0 then c - 1 else c) \<and>
            (\<exists>secs. tm' = u32 (t + 1000 * secs) \<and>
                    (0 \<le> rg \<longrightarrow> mn \<le> secs \<and> secs \<le> mn + rg))
       else a' = a \<and> n' = n \<and> c' = c \<and> tm' = (if rollover \<and> tm > 0 then t else tm)))"

text \<open>
  Three relations between an engine and a later one: the parts of the engine that the
  loop reads to choose its layers are the same (\<open>same_frame\<close>); the view of the layer \<open>j\<close>
  is the same (\<open>untouched\<close>); the view has changed by one pass of the loop (\<open>visited\<close>).
\<close>

definition same_frame :: "'p engine \<Rightarrow> 'p engine \<Rightarrow> bool" where
  "same_frame s s' =
     (timePrevUpdate s' = timePrevUpdate s \<and> indexTrackEnable s' = indexTrackEnable s \<and>
      indexLayerStack s' = indexLayerStack s \<and>
      length (pluginLayers s') = length (pluginLayers s) \<and>
      (\<forall>m. track (pluginLayers s' ! m) = track (pluginLayers s ! m)))"

definition untouched :: "nat \<Rightarrow> 'p engine \<Rightarrow> 'p engine \<Rightarrow> bool" where
  "untouched j s s' = (trig_view j s' = trig_view j s)"

definition visited :: "bool \<Rightarrow> int \<Rightarrow> nat \<Rightarrow> 'p engine \<Rightarrow> 'p engine \<Rightarrow> bool" where
  "visited rollover t j s s' = layer_pass rollover t (trig_view j s) (trig_view j s')"

section \<open>Example runs\<close>

text \<open>Engines reached from the example engine by command strings.\<close>

definition after_E0_J50_K50 :: "pnp engine" where
  "after_E0_J50_K50 = snd (execCmdStr demo_env demo_engine ''E0 H120 J50 K50'')"

definition after_Y5_E0_Y_C100 :: "pnp engine" where
  "after_Y5_E0_Y_C100 = snd (execCmdStr demo_env demo_engine ''Y5 E0 Y C100'')"

definition after_Y3_Y3 :: "pnp engine" where
  "after_Y3_Y3 = snd (execCmdStr demo_env demo_engine ''Y3 Y3'')"

definition out_of_memory :: "pnp engine" where
  "out_of_memory = (snd (execCmdStr demo_env demo_engine ''E0 H90 T''))\<lparr>alloc_src := [False]\<rparr>"


definition one_layer :: "pnp engine" where
  "one_layer = snd (execCmdStr demo_env demo_engine ''E0'')"







section \<open>Facts about the string helpers\<close>

lemma isdigit_toupper: "isdigit (toupper c) = isdigit c"
  by (auto simp: isdigit_def toupper_def)

lemma toupper_digit: "isdigit c \<Longrightarrow> toupper c = c"
  by (auto simp: isdigit_def toupper_def)

lemma of_char_toupper:
  "(of_char (toupper c) :: nat) =
     (if 97 \<le> (of_char c :: nat) \<and> (of_char c :: nat) \<le> 122 then of_char c - 32 else of_char c)"
  by (auto simp: toupper_def)

lemma toupper_eq_space: "(toupper c = CHR '' '') = (c = CHR '' '')"
proof -
  have "(toupper c = CHR '' '') = ((of_char (toupper c) :: nat) = of_char (CHR '' ''))"
    by (simp only: of_char_eq_iff)
  also have "\<dots> = ((of_char c :: nat) = of_char (CHR '' ''))"
    by (auto simp: of_char_toupper)
  also have "\<dots> = (c = CHR '' '')"
    by (simp only: of_char_eq_iff)
  finally show ?thesis .
qed

lemma starts_with_digit_toupper:
  "starts_with_digit (map toupper str) = starts_with_digit str"
  by (cases str) (simp_all add: starts_with_digit_def isdigit_toupper)

lemma strtol_from_toupper: "strtol_from acc (map toupper str) = strtol_from acc str"
  by (induction str arbitrary: acc) (auto simp: isdigit_toupper toupper_digit)

lemma atoi_long_numeral:
  "atoi ''2147483647'' = 2147483647 \<and> atoi ''2147483648'' = - 2147483648 \<and>
   atoi ''4294967296'' = 0 \<and> atoi ''4294967297'' = 1 \<and>
   atoi ''99999999999999999999'' = - 1"
  by code_simp

lemma atoi_toupper: "atoi (map toupper str) = atoi str"
  by (simp add: atoi_def strtol_from_toupper)

lemma GetNumValue2_toupper: "GetNumValue2 (map toupper str) m = GetNumValue2 str m"
  by (simp add: GetNumValue2_def starts_with_digit_toupper atoi_toupper)

lemma GetNumValue3_toupper: "GetNumValue3 (map toupper str) c m = GetNumValue3 str c m"
  by (simp add: GetNumValue3_def starts_with_digit_toupper atoi_toupper)

lemma strtok_from_no_space:
  "CHR '' '' \<notin> set str \<Longrightarrow>
   strtok_from cur str = (if cur @ str = [] then [] else [cur @ str])"
  by (induction str arbitrary: cur) auto

lemma c_string_no_nul: "CHR 0x00 \<notin> set str \<Longrightarrow> c_string str = str"
  by (auto simp: c_string_def takeWhile_eq_all_conv)

lemma cmd_tokens_single:
  assumes "CHR '' '' \<notin> set str" and "CHR 0x00 \<notin> set str" and "str \<noteq> []"
  shows "cmd_tokens str = [map toupper str]"
proof -
  have "CHR '' '' \<notin> set (map toupper str)"
    using assms(1) toupper_eq_space by (metis (no_types) imageE list.set_map)
  then show ?thesis
    using assms by (simp add: cmd_tokens_def c_string_no_nul strtok_from_no_space)
qed




lemma toupper_letters:
  "toupper (CHR ''H'') = CHR ''H''" "toupper (CHR ''W'') = CHR ''W''"
  "toupper (CHR ''B'') = CHR ''B''" "toupper (CHR ''D'') = CHR ''D''"
  "toupper (CHR ''J'') = CHR ''J''" "toupper (CHR ''K'') = CHR ''K''"
  "toupper (CHR ''E'') = CHR ''E''"
  by code_simp+

lemma execCmdStr_single:
  assumes "CHR '' '' \<notin> set arg" and "CHR 0x00 \<notin> set arg"
    and "toupper c = c" and "c \<noteq> CHR '' ''" and "c \<noteq> CHR 0x00"
  shows "execCmdStr env s (c # arg) =
           (fst (exec_cmd env s (- 1) (c # map toupper arg)),
            fst (snd (exec_cmd env s (- 1) (c # map toupper arg))))"
proof -
  have "cmd_tokens (c # arg) = [c # map toupper arg]"
    using cmd_tokens_single [of "c # arg"] assms by simp
  then show ?thesis
    by (simp add: execCmdStr_def Let_def)
qed

section \<open>Facts about the draw properties\<close>

lemma pdraw_upd_pdraw:
  "0 \<le> indexTrackStack s \<Longrightarrow> nat (indexTrackStack s) < length (pluginTracks s) \<Longrightarrow>
   pdraw (upd_pdraw f s) = f (pdraw s)"
  by (simp add: pdraw_def upd_pdraw_def upd_track_def)

lemma makeColorVals_fields:
  "pixStart (makeColorVals env d) = pixStart d"
  "pixLen (makeColorVals env d) = pixLen d"
  "pixCount (makeColorVals env d) = pixCount d"
  "degreeHue (makeColorVals env d) = degreeHue d"
  "pcentWhite (makeColorVals env d) = pcentWhite d"
  "pcentBright (makeColorVals env d) = pcentBright d"
  "msecsDelay (makeColorVals env d) = msecsDelay d"
  "goUpwards (makeColorVals env d) = goUpwards d"
  "orPixelValues (makeColorVals env d) = orPixelValues d"
  by (simp_all add: makeColorVals_def split: prod.splits)

lemma GetNumValue3_no_digit: "\<not> starts_with_digit arg \<Longrightarrow> GetNumValue3 arg cur m = cur"
  by (simp add: GetNumValue3_def)

section \<open>Facts about the stacks\<close>

lemma list_update_upd_same:
  "xs[i := f (xs[i := v] ! i)] = xs[i := f v]"
  by (cases "i < length xs") (simp_all add: list_update_beyond)

lemma list_update_obj_same:
  "xs[i := (xs[i := v] ! i)\<lparr>obj := c\<rparr>] = xs[i := v\<lparr>obj := c\<rparr>]"
  by (cases "i < length xs") (simp_all add: list_update_beyond)

lemma new_track_cong:
  "indexLayerStack s = indexLayerStack s' \<Longrightarrow> eng_segCount s = eng_segCount s' \<Longrightarrow>
   eng_segOffset s = eng_segOffset s' \<Longrightarrow> eng_goUpwards s = eng_goUpwards s' \<Longrightarrow>
   new_track env s segindex = new_track env s' segindex"
  by (simp add: new_track_def)

lemma new_layer_cong:
  "indexTrackStack s = indexTrackStack s' \<Longrightarrow> curForce s = curForce s' \<Longrightarrow>
   new_layer s ptr p = new_layer s' ptr p"
  by (simp add: new_layer_def)

lemma NewPluginLayer_full:
  "indexLayerStack s + 1 \<ge> maxPluginLayers s \<Longrightarrow>
   NewPluginLayer env s plugin segindex = (Status_Error_Memory, s)"
  by (simp add: NewPluginLayer_def)

lemma NewPluginLayer_no_plugin:
  "\<not> indexLayerStack s + 1 \<ge> maxPluginLayers s \<Longrightarrow> makePlugin env plugin = None \<Longrightarrow>
   NewPluginLayer env s plugin segindex = (Status_Error_BadVal, s)"
  by (simp add: NewPluginLayer_def)

lemma NewPluginLayer_no_track:
  "\<not> indexLayerStack s + 1 \<ge> maxPluginLayers s \<Longrightarrow> makePlugin env plugin = Some p \<Longrightarrow>
   \<not> is_redraw env p \<Longrightarrow> indexTrackStack s < 0 \<Longrightarrow>
   NewPluginLayer env s plugin segindex =
     (Status_Error_BadCmd,
      s\<lparr>next_ptr := Suc (next_ptr s),
        trace := trace s @ [New (next_ptr s), Delete (next_ptr s)]\<rparr>)"
  by (simp add: NewPluginLayer_def Let_def log_event_def)

lemma NewPluginLayer_tracks_full:
  "\<not> indexLayerStack s + 1 \<ge> maxPluginLayers s \<Longrightarrow> makePlugin env plugin = Some p \<Longrightarrow>
   is_redraw env p \<Longrightarrow> indexTrackStack s + 1 \<ge> maxPluginTracks s \<Longrightarrow>
   NewPluginLayer env s plugin segindex =
     (Status_Error_Memory,
      s\<lparr>next_ptr := Suc (next_ptr s),
        trace := trace s @ [New (next_ptr s), Delete (next_ptr s)]\<rparr>)"
  by (simp add: NewPluginLayer_def Let_def log_event_def)

lemma NewPluginLayer_predraw:
  "\<not> indexLayerStack s + 1 \<ge> maxPluginLayers s \<Longrightarrow> makePlugin env plugin = Some p \<Longrightarrow>
   \<not> is_redraw env p \<Longrightarrow> \<not> indexTrackStack s < 0 \<Longrightarrow>
   NewPluginLayer env s plugin segindex = (Status_Success, pushed env s p segindex)"
  by (simp add: NewPluginLayer_def pushed_def Let_def log_event_def upd_layer_def
      new_layer_def list_update_upd_same list_update_obj_same)

lemma NewPluginLayer_alloc_failed:
  "\<not> indexLayerStack s + 1 \<ge> maxPluginLayers s \<Longrightarrow> makePlugin env plugin = Some p \<Longrightarrow>
   is_redraw env p \<Longrightarrow> \<not> indexTrackStack s + 1 \<ge> maxPluginTracks s \<Longrightarrow> \<not> malloc_ok s \<Longrightarrow>
   NewPluginLayer env s plugin segindex =
     (Status_Error_Memory,
      (pushed env s p segindex)
        \<lparr>alloc_src := tl (alloc_src s),
         indexTrackStack := indexTrackStack s,
         indexLayerStack := indexLayerStack s,
         trace := trace (pushed env s p segindex) @ [Delete (next_ptr s)]\<rparr>)"
  by (simp add: NewPluginLayer_def pushed_def Let_def log_event_def upd_layer_def upd_track_def
      new_layer_def new_track_def malloc_next_def malloc_ok_def list_update_upd_same
      list_update_obj_same)

lemma NewPluginLayer_redraw:
  "\<not> indexLayerStack s + 1 \<ge> maxPluginLayers s \<Longrightarrow> makePlugin env plugin = Some p \<Longrightarrow>
   is_redraw env p \<Longrightarrow> \<not> indexTrackStack s + 1 \<ge> maxPluginTracks s \<Longrightarrow> malloc_ok s \<Longrightarrow>
   NewPluginLayer env s plugin segindex =
     (Status_Success,
      (pushed env s p segindex)
        \<lparr>alloc_src := tl (alloc_src s),
         pluginTracks := (pluginTracks (pushed env s p segindex))
           [nat (indexTrackStack s + 1) :=
              (pluginTracks (pushed env s p segindex) ! nat (indexTrackStack s + 1))
                \<lparr>pRedrawBuff := Some (replicate (nat (eng_segCount s * 3)) 0)\<rparr>]\<rparr>)"
  by (simp add: NewPluginLayer_def pushed_def Let_def log_event_def upd_layer_def upd_track_def
      new_layer_def new_track_def malloc_next_def malloc_ok_def list_update_upd_same
      list_update_obj_same)


section \<open>Facts about triggering\<close>

lemma u8_id: "0 \<le> i \<Longrightarrow> i < 256 \<Longrightarrow> u8 i = i"
  by (simp add: u8_def)

lemma nth_list_update_field:
  "(\<And>x. F (g x) = F x) \<Longrightarrow> F (xs[k := g (xs ! k)] ! j) = F (xs ! j)"
  by (cases "k < length xs"; cases "j = k") (simp_all add: list_update_beyond)

lemma pluginLayers_triggerLayer:
  "pluginLayers (triggerLayer env s li force) =
     (pluginLayers s)[nat li := (pluginLayers s ! nat li)
        \<lparr>obj := fst (trigger env (obj (pluginLayers s ! nat li))
                       (draw (pluginTracks s ! nat (track (pluginLayers s ! nat li)))) force),
         trigActive := True\<rparr>]"
  by (simp add: triggerLayer_def Let_def log_event_def upd_layer_def upd_track_def)

lemma trace_triggerLayer:
  "trace (triggerLayer env s li force) = trace s @ [Trigger (nat li) force]"
  by (simp add: triggerLayer_def Let_def log_event_def upd_layer_def upd_track_def)










section \<open>The stack invariant\<close>

subsection \<open>What clearStack does\<close>

lemma clearStack_layers_eq:
  "0 \<le> j \<Longrightarrow>
   clearStack_layers s j count =
     (s\<lparr>trace := trace s @
          map (\<lambda>k. Delete (pPlugin (pluginLayers s ! k))) [nat j ..< nat (indexLayerStack s)]\<rparr>,
      count + (if j < indexLayerStack s then indexLayerStack s - j else 0))"
proof (induction s j count rule: clearStack_layers.induct)
  case (1 s j count)
  show ?case
  proof (cases "j < indexLayerStack s")
    case False
    then show ?thesis
      by (subst clearStack_layers.simps) simp
  next
    case True
    have lt: "nat j < nat (indexLayerStack s)"
      using True "1.prems" by simp
    have suc: "nat (j + 1) = Suc (nat j)"
      using "1.prems" by simp
    have upt: "[nat j ..< nat (indexLayerStack s)] = nat j # [nat (j + 1) ..< nat (indexLayerStack s)]"
      unfolding suc by (rule upt_conv_Cons [OF lt])
    show ?thesis
      using True "1.IH" [OF True] "1.prems"
      by (subst clearStack_layers.simps) (simp add: log_event_def upt)
  qed
qed

lemma engine_upd_order:
  "s\<lparr>indexLayerStack := a, trace := b\<rparr> = s\<lparr>trace := b, indexLayerStack := a\<rparr>"
  by (rule engine.equality) simp_all

lemma clearStack_tracks_step:
  assumes "0 \<le> i" and "0 \<le> layer (pluginTracks s ! nat i)"
  shows "clearStack_tracks s i =
     clearStack_tracks
       (s\<lparr>trace := trace s @
            track_events (pluginLayers s) (pluginTracks s) (nat i) (indexLayerStack s),
          indexLayerStack := min (indexLayerStack s) (layer (pluginTracks s ! nat i))\<rparr>)
       (i - 1)"
  using assms
  by (subst clearStack_tracks.simps)
     (simp add: clearStack_layers_eq track_events_def log_event_def Let_def min_def
        engine_upd_order)

lemma clearStack_tracks_eq:
  assumes "\<forall>t < n. 0 \<le> layer (pluginTracks s ! t)"
  shows "clearStack_tracks s (int n - 1) =
     s\<lparr>trace := trace s @ clear_events (pluginLayers s) (pluginTracks s) n (indexLayerStack s),
       indexLayerStack := fold (\<lambda>t L. min L (layer (pluginTracks s ! t))) (rev [0 ..< n])
                             (indexLayerStack s)\<rparr>"
  using assms
proof (induction n arbitrary: s)
  case 0
  then show ?case
    by (subst clearStack_tracks.simps) simp
next
  case (Suc n)
  let ?s' = "s\<lparr>trace := trace s @
            track_events (pluginLayers s) (pluginTracks s) n (indexLayerStack s),
          indexLayerStack := min (indexLayerStack s) (layer (pluginTracks s ! n))\<rparr>"
  have step: "clearStack_tracks s (int (Suc n) - 1) = clearStack_tracks ?s' (int n - 1)"
    using clearStack_tracks_step [of "int n" s] Suc.prems by simp
  have ih: "clearStack_tracks ?s' (int n - 1) =
     ?s'\<lparr>trace := trace ?s' @ clear_events (pluginLayers ?s') (pluginTracks ?s') n (indexLayerStack ?s'),
       indexLayerStack := fold (\<lambda>t L. min L (layer (pluginTracks ?s' ! t))) (rev [0 ..< n])
                             (indexLayerStack ?s')\<rparr>"
    using Suc.prems by (intro Suc.IH) simp
  show ?case
    unfolding step ih by simp
qed

subsection \<open>Operations that keep the shape of the stacks\<close>

lemma same_shape_refl: "same_shape s s"
  by (simp add: same_shape_def)

lemma same_shape_trans: "same_shape s s' \<Longrightarrow> same_shape s' s'' \<Longrightarrow> same_shape s s''"
  by (simp add: same_shape_def)

lemma stack_inv_same_shape: "same_shape s s' \<Longrightarrow> stack_inv s \<Longrightarrow> stack_inv s'"
  by (simp add: same_shape_def stack_inv_def)

lemma layer_nth_update:
  "layer y = layer (xs ! k) \<Longrightarrow> layer (xs[k := y] ! j) = layer (xs ! j)"
  by (cases "k < length xs"; cases "j = k") (simp_all add: list_update_beyond)

lemma buff_nth_update:
  "(pRedrawBuff y = None) = (pRedrawBuff (xs ! k) = None) \<Longrightarrow>
   (pRedrawBuff (xs[k := y] ! j) = None) = (pRedrawBuff (xs ! j) = None)"
  by (cases "k < length xs"; cases "j = k") (simp_all add: list_update_beyond)

lemma same_shape_upd_layer: "same_shape s (upd_layer i f s') = same_shape s s'"
  by (simp add: same_shape_def upd_layer_def)

lemma same_shape_upd_track:
  "layer (f (pluginTracks s' ! nat i)) = layer (pluginTracks s' ! nat i) \<Longrightarrow>
   (pRedrawBuff (f (pluginTracks s' ! nat i)) = None) =
     (pRedrawBuff (pluginTracks s' ! nat i) = None) \<Longrightarrow>
   same_shape s (upd_track i f s') = same_shape s s'"
  by (simp add: same_shape_def upd_track_def layer_nth_update buff_nth_update)

lemma same_shape_log_event: "same_shape s (log_event e s') = same_shape s s'"
  by (simp add: same_shape_def log_event_def)

lemma same_shape_random_next: "same_shape s (random_next s' a b) = same_shape s s'"
  by (simp add: same_shape_def random_next_def)

lemma RestorePropVals_shape:
  "layer (RestorePropVals env t a b c) = layer t"
  "pRedrawBuff (RestorePropVals env t a b c) = pRedrawBuff t"
  by (simp_all add: RestorePropVals_def Let_def)

lemma same_shape_triggerLayer: "same_shape s (triggerLayer env s' li force) = same_shape s s'"
  by (simp add: triggerLayer_def Let_def same_shape_log_event same_shape_upd_layer
      same_shape_upd_track RestorePropVals_shape)

lemma same_shape_auto_fire: "same_shape s (auto_fire env s' i) = same_shape s s'"
  by (simp add: auto_fire_def Let_def same_shape_upd_layer same_shape_random_next
      same_shape_triggerLayer)

lemma same_shape_CheckAutoTrigger_layer:
  "same_shape s (CheckAutoTrigger_layer env rollover s' i) = same_shape s s'"
  by (simp add: CheckAutoTrigger_layer_def Let_def same_shape_upd_layer same_shape_auto_fire)

lemma same_shape_CheckAutoTrigger_from:
  "same_shape s (CheckAutoTrigger_from env rollover s' i) = same_shape s s'"
proof (induction env rollover s' i rule: CheckAutoTrigger_from.induct)
  case (1 env rollover s' i)
  then show ?case
    by (subst CheckAutoTrigger_from.simps) (simp add: same_shape_CheckAutoTrigger_layer)
qed

lemma same_shape_triggerForce_from:
  "same_shape s (triggerForce_from env s' force i) = same_shape s s'"
proof (induction env s' force i rule: triggerForce_from.induct)
  case (1 env s' force i)
  then show ?case
    by (subst triggerForce_from.simps) (simp add: same_shape_triggerLayer)
qed

lemma same_shape_triggerForce2_from:
  "same_shape s (triggerForce2_from env s' src force i) = same_shape s s'"
proof (induction env s' src force i rule: triggerForce2_from.induct)
  case (1 env s' src force i)
  then show ?case
    by (subst triggerForce2_from.simps) (simp add: same_shape_triggerLayer)
qed


lemma same_shape_SetPropColor_from:
  "same_shape s (SetPropColor_from env s' i) = same_shape s s'"
proof (induction env s' i rule: SetPropColor_from.induct)
  case (1 env s' i)
  have "same_shape s (upd_track i (SetPropColor_track env s') s') = same_shape s s'"
    by (rule same_shape_upd_track) (simp_all add: SetPropColor_track_def Let_def)
  with 1 show ?case
    by (subst SetPropColor_from.simps) simp
qed

lemma same_shape_SetPropCount_from:
  "same_shape s (SetPropCount_from s' i) = same_shape s s'"
proof (induction s' i rule: SetPropCount_from.induct)
  case (1 s' i)
  have "same_shape s (upd_track i (SetPropCount_track s') s') = same_shape s s'"
    by (rule same_shape_upd_track) (simp_all add: SetPropCount_track_def)
  with 1 show ?case
    by (subst SetPropCount_from.simps) simp
qed

lemma same_shape_setters:
  "same_shape s (setMaxBrightness s percent)"
  "same_shape s (setDelayOffset s msecs)"
  "same_shape s (setPropertyMode s enable)"
  "same_shape s (setColorProperty env s hue white)"
  "same_shape s (setCountProperty s pct)"
  "same_shape s (triggerForce env s force)"
  "same_shape s (triggerForce2 env s src force)"
  "same_shape s (triggerLayer env s li force)"
  by (simp_all add: setMaxBrightness_def setDelayOffset_def setPropertyMode_def
      setColorProperty_def setCountProperty_def SetPropColor_def SetPropCount_def
      triggerForce_def triggerForce2_def Let_def
      same_shape_SetPropColor_from same_shape_SetPropCount_from
      same_shape_triggerForce_from same_shape_triggerForce2_from same_shape_triggerLayer)
     (simp_all add: same_shape_def)

lemma same_shape_upd_pdraw: "same_shape s (upd_pdraw f s') = same_shape s s'"
  by (simp add: upd_pdraw_def same_shape_upd_track)

lemma same_shape_upd_top_layer: "same_shape s (upd_top_layer f s') = same_shape s s'"
  by (simp add: upd_top_layer_def same_shape_upd_layer)

lemma same_shape_cmds:
  "same_shape s (cmd_X s arg)"
  "same_shape s (fst (cmd_Y s k arg))"
  "same_shape s (cmd_J s arg)"
  "same_shape s (cmd_K s arg)"
  "same_shape s (cmd_U s arg)"
  "same_shape s (cmd_V s arg)"
  "same_shape s (cmd_H env s arg)"
  "same_shape s (cmd_W env s arg)"
  "same_shape s (cmd_B env s arg)"
  "same_shape s (cmd_C s arg)"
  "same_shape s (cmd_D env s arg)"
  "same_shape s (cmd_I s arg)"
  "same_shape s (cmd_A s arg)"
  "same_shape s (cmd_F s arg)"
  "same_shape s (cmd_N s arg)"
  "same_shape s (cmd_O s arg)"
  "same_shape s (cmd_G s)"
  by (simp_all add: cmd_X_def cmd_Y_def cmd_J_def cmd_K_def cmd_U_def cmd_V_def cmd_H_def
      cmd_W_def cmd_B_def cmd_C_def cmd_D_def cmd_I_def cmd_A_def cmd_F_def cmd_N_def
      cmd_O_def cmd_G_def Let_def same_shape_upd_pdraw same_shape_upd_top_layer)
     (simp_all add: same_shape_def)

lemma same_shape_cmd_Q: "same_shape s (cmd_Q env s arg)"
  by (simp add: cmd_Q_def Let_def same_shape_upd_pdraw same_shape_upd_track same_shape_refl)

lemma same_shape_cmd_T: "same_shape s (cmd_T env s arg)"
  by (simp add: cmd_T_def Let_def same_shape_triggerLayer same_shape_upd_top_layer
      same_shape_random_next same_shape_refl)

lemma same_shape_predraw_step: "same_shape s (predraw_step env i s' j) = same_shape s s'"
  by (simp add: predraw_step_def Let_def same_shape_log_event same_shape_upd_layer
      same_shape_upd_track)

lemma same_shape_predraw_from: "same_shape s (predraw_from env i s' j) = same_shape s s'"
proof (induction env i s' j rule: predraw_from.induct)
  case (1 env i s' j)
  then show ?case
    by (subst predraw_from.simps) (simp add: same_shape_predraw_step)
qed

lemma same_shape_pDrawPixels: "same_shape s (s'\<lparr>pDrawPixels := x\<rparr>) = same_shape s s'"
  by (simp add: same_shape_def)

lemma same_shape_redraw_nextstep: "same_shape s (redraw_nextstep env s' i) = same_shape s s'"
  by (simp add: redraw_nextstep_def Let_def same_shape_log_event same_shape_upd_layer
      same_shape_upd_track same_shape_pDrawPixels)

lemma same_shape_redraw_schedule: "same_shape s (redraw_schedule s' i) = same_shape s s'"
  by (simp add: redraw_schedule_def Let_def same_shape_upd_track)

lemma same_shape_redraw_now: "same_shape s (redraw_now env s' i) = same_shape s s'"
  by (simp add: redraw_now_def Let_def same_shape_redraw_schedule same_shape_redraw_nextstep
      same_shape_upd_track same_shape_predraw_from same_shape_pDrawPixels RestorePropVals_shape)

lemma same_shape_redraw_track:
  "same_shape s (fst (redraw_track env rollover s' i)) = same_shape s s'"
  by (simp add: redraw_track_def Let_def same_shape_redraw_now same_shape_upd_track)

lemma same_shape_redraw_from:
  "same_shape s (fst (redraw_from env rollover s' i doshow)) = same_shape s s'"
proof (induction env rollover s' i doshow rule: redraw_from.induct)
  case (1 env rollover s' i doshow)
  then show ?case
    by (subst redraw_from.simps) (simp add: same_shape_redraw_track)
qed

lemma same_shape_fields:
  "same_shape s (s'\<lparr>pDisplayPixels := d\<rparr>) = same_shape s s'"
  "same_shape s (s'\<lparr>timePrevUpdate := t\<rparr>) = same_shape s s'"
  "same_shape s (s'\<lparr>clock := t, rand_src := r, alloc_src := a\<rparr>) = same_shape s s'"
  by (simp_all add: same_shape_def)

lemma same_shape_updateEffects:
  assumes "updateEffects env s = Some (b, s')"
  shows "same_shape s s'"
proof -
  let ?r = "clock s < timePrevUpdate s"
  let ?s3 = "fst (redraw_from env ?r (CheckAutoTrigger env ?r (s\<lparr>timePrevUpdate := clock s\<rparr>))
                0 (timePrevUpdate s = 0))"
  have A: "same_shape s ?s3"
    by (simp add: same_shape_redraw_from CheckAutoTrigger_def same_shape_CheckAutoTrigger_from
        same_shape_fields same_shape_refl)
  have "s' = ?s3 \<or> (\<exists>d. s' = ?s3\<lparr>pDisplayPixels := d\<rparr>)"
    using assms by (auto simp: updateEffects_def Let_def split: if_splits option.splits)
  then show ?thesis
    using A by (auto simp: same_shape_fields)
qed

subsection \<open>The invariant holds in every reachable engine\<close>

lemma stack_inv_constructor:
  assumes "0 \<le> num_layers" "num_layers \<le> 256" "0 \<le> num_tracks"
  shows "stack_inv (PixelNutEngine (Some px) num_pixels goup num_layers num_tracks True True
           jl jt jh jw jc)"
  using assms by (simp add: stack_inv_def PixelNutEngine_def)

lemma stack_inv_clearStack: "stack_inv s \<Longrightarrow> stack_inv (clearStack s)"
proof -
  assume inv: "stack_inv s"
  have nonneg: "\<forall>t < nat (indexTrackStack s + 1). 0 \<le> layer (pluginTracks s ! t)"
  proof (intro allI impI)
    fix t assume "t < nat (indexTrackStack s + 1)"
    then show "0 \<le> layer (pluginTracks s ! t)"
    proof (induction t)
      case 0
      then show ?case using inv by (simp add: stack_inv_def)
    next
      case (Suc t)
      then have "layer (pluginTracks s ! t) < layer (pluginTracks s ! Suc t)"
        using inv by (simp add: stack_inv_def)
      with Suc show ?case by simp
    qed
  qed
  have "int (nat (indexTrackStack s + 1)) - 1 = indexTrackStack s"
    using inv by (simp add: stack_inv_def)
  then show ?thesis
    using clearStack_tracks_eq [OF nonneg] inv
    by (simp add: clearStack_def Let_def stack_inv_def)
qed

lemma stack_inv_NewPluginLayer:
  assumes inv: "stack_inv s"
  shows "stack_inv (snd (NewPluginLayer env s plugin segindex))"
proof (cases "indexLayerStack s + 1 \<ge> maxPluginLayers s")
  case True
  then show ?thesis
    using inv by (simp add: NewPluginLayer_full)
next
  case notfull: False
  show ?thesis
  proof (cases "makePlugin env plugin")
    case None
    then show ?thesis
      using notfull inv by (simp add: NewPluginLayer_no_plugin)
  next
    case (Some p)
    have u: "u8 (indexLayerStack s + 1) = indexLayerStack s + 1"
      using inv notfull by (intro u8_id) (simp_all add: stack_inv_def)
    show ?thesis
    proof (cases "is_redraw env p")
      case False
      then show ?thesis
        using notfull Some inv
        by (cases "indexTrackStack s < 0")
           (auto simp: NewPluginLayer_no_track NewPluginLayer_predraw pushed_def Let_def
              stack_inv_def)
    next
      case True
      show ?thesis
      proof (cases "indexTrackStack s + 1 \<ge> maxPluginTracks s")
        case full: True
        then show ?thesis
          using notfull Some True inv
          by (simp add: NewPluginLayer_tracks_full stack_inv_def)
      next
        case room: False
        have idx: "nat (indexTrackStack s + 1) = Suc (nat (indexTrackStack s)) \<or> indexTrackStack s = - 1"
          using inv by (auto simp: stack_inv_def)
        show ?thesis
        proof (cases "malloc_ok s")
          case False
          then show ?thesis
            using notfull Some True room inv
            by (auto simp: NewPluginLayer_alloc_failed pushed_def Let_def stack_inv_def
                nth_list_update)
        next
          case ok: True
          have L: "indexTrackStack s < 0 \<Longrightarrow> indexLayerStack s = - 1"
            using inv by (simp add: stack_inv_def)
          show ?thesis
            using notfull Some True room inv ok u L
            by (auto simp: NewPluginLayer_redraw pushed_def Let_def stack_inv_def
                nth_list_update new_track_def less_Suc_eq nat_add_distrib)
        qed
      qed
    qed
  qed
qed

lemma stack_inv_cmd_E: "stack_inv s \<Longrightarrow> stack_inv (snd (cmd_E env s k arg))"
  by (simp add: cmd_E_def Let_def stack_inv_NewPluginLayer)

lemma stack_inv_cmd_P: "stack_inv s \<Longrightarrow> stack_inv (cmd_P s)"
  using stack_inv_same_shape [of "clearStack s" "cmd_P s"]
  by (simp add: cmd_P_def same_shape_fields same_shape_refl stack_inv_clearStack)

lemma exec_cmd_cases:
  "same_shape s (fst (snd (exec_cmd env s k cmd))) \<or>
   fst (snd (exec_cmd env s k cmd)) = snd (cmd_E env s k (tl cmd)) \<or>
   fst (snd (exec_cmd env s k cmd)) = cmd_P s"
  by (simp add: exec_cmd_def Let_def same_shape_cmds same_shape_cmd_Q same_shape_cmd_T
      same_shape_refl)

lemma stack_inv_exec_cmd: "stack_inv s \<Longrightarrow> stack_inv (fst (snd (exec_cmd env s k cmd)))"
  using exec_cmd_cases [of s env k cmd] stack_inv_same_shape stack_inv_cmd_E stack_inv_cmd_P
  by metis

lemma stack_inv_exec_tokens: "stack_inv s \<Longrightarrow> stack_inv (snd (exec_tokens env s k toks))"
proof (induction toks arbitrary: s k)
  case Nil
  then show ?case by simp
next
  case (Cons cmd toks)
  then show ?case
    by (simp add: Let_def stack_inv_exec_cmd)
qed

lemma stack_inv_execCmdStr: "stack_inv s \<Longrightarrow> stack_inv (snd (execCmdStr env s cmdstr))"
  by (simp add: execCmdStr_def stack_inv_exec_tokens)

lemmas stack_inv_setters = same_shape_setters [THEN stack_inv_same_shape]

lemma reachable_stack_inv: "reachable env s \<Longrightarrow> stack_inv s"
proof (induction rule: reachable.induct)
  case constructed
  then show ?case by (simp add: stack_inv_constructor)
next
  case surroundings
  then show ?case
    by (metis same_shape_fields(3) same_shape_refl stack_inv_same_shape)
next
  case execCmdStr
  then show ?case by (simp add: stack_inv_execCmdStr)
next
  case updateEffects
  then show ?case
    using same_shape_updateEffects stack_inv_same_shape by blast
next
  case clearStack
  then show ?case by (simp add: stack_inv_clearStack)
qed (simp_all add: stack_inv_setters)

subsection \<open>The events of clearStack under the invariant\<close>

lemma deleted_plugins_append:
  "deleted_plugins (xs @ ys) = deleted_plugins xs @ deleted_plugins ys"
  by (induction xs rule: deleted_plugins.induct) simp_all

lemma freed_tracks_append: "freed_tracks (xs @ ys) = freed_tracks xs @ freed_tracks ys"
  by (induction xs rule: freed_tracks.induct) simp_all

lemma deleted_plugins_map_Delete: "deleted_plugins (map (\<lambda>j. Delete (f j)) js) = map f js"
  by (induction js) simp_all

lemma freed_tracks_map_Delete: "freed_tracks (map (\<lambda>j. Delete (f j)) js) = []"
  by (induction js) simp_all

lemma deleted_plugins_track_events:
  "deleted_plugins (track_events ls ts t upper) =
     map (\<lambda>j. pPlugin (ls ! j)) [nat (layer (ts ! t)) ..< nat upper]"
  by (simp add: track_events_def deleted_plugins_append deleted_plugins_map_Delete)

lemma freed_tracks_track_events:
  "freed_tracks (track_events ls ts t upper) = (if pRedrawBuff (ts ! t) \<noteq> None then [t] else [])"
  by (simp add: track_events_def freed_tracks_append freed_tracks_map_Delete)

lemma freed_tracks_clear_events:
  "\<forall>t < n. pRedrawBuff (ts ! t) \<noteq> None \<Longrightarrow> freed_tracks (clear_events ls ts n upper) = rev [0 ..< n]"
  by (induction n arbitrary: upper)
     (simp_all add: freed_tracks_append freed_tracks_track_events)

lemma deleted_plugins_clear_events:
  assumes "\<forall>t. Suc t < n \<longrightarrow> layer (ts ! t) < layer (ts ! Suc t)"
    and "0 < n \<longrightarrow> layer (ts ! (n - 1)) \<le> upper"
  shows "deleted_plugins (clear_events ls ts n upper) =
     map (\<lambda>j. pPlugin (ls ! j))
       (concat (map (\<lambda>t. [nat (layer (ts ! t)) ..<
                            (if Suc t = n then nat upper else nat (layer (ts ! Suc t)))])
                  (rev [0 ..< n])))"
  using assms
proof (induction n arbitrary: upper)
  case 0
  then show ?case by simp
next
  case (Suc n)
  have m: "min upper (layer (ts ! n)) = layer (ts ! n)"
    using Suc.prems(2) by simp
  have ih: "deleted_plugins (clear_events ls ts n (layer (ts ! n))) =
     map (\<lambda>j. pPlugin (ls ! j))
       (concat (map (\<lambda>t. [nat (layer (ts ! t)) ..<
                            (if Suc t = n then nat (layer (ts ! n)) else nat (layer (ts ! Suc t)))])
                  (rev [0 ..< n])))"
  proof (rule Suc.IH)
    show "\<forall>t. Suc t < n \<longrightarrow> layer (ts ! t) < layer (ts ! Suc t)"
      using Suc.prems(1) by simp
    show "0 < n \<longrightarrow> layer (ts ! (n - 1)) \<le> layer (ts ! n)"
      using Suc.prems(1) [rule_format, of "n - 1"] by auto
  qed
  have eq: "map (\<lambda>t. [nat (layer (ts ! t)) ..<
                            (if Suc t = n then nat (layer (ts ! n)) else nat (layer (ts ! Suc t)))])
                  (rev [0 ..< n]) =
            map (\<lambda>t. [nat (layer (ts ! t)) ..<
                            (if Suc t = Suc n then nat upper else nat (layer (ts ! Suc t)))])
                  (rev [0 ..< n])"
    by (rule map_cong) auto
  show ?case
    by (simp add: deleted_plugins_append deleted_plugins_track_events m ih eq)
qed

lemma filter_neq_insert:
  "filter (\<lambda>p. p \<noteq> x) (xs @ [x] @ ys) = filter (\<lambda>p. p \<noteq> x) (xs @ ys)"
  by simp

lemma stack_inv_layers_nonneg:
  assumes inv: "stack_inv s" and t: "t < nat (indexTrackStack s + 1)"
  shows "0 \<le> layer (pluginTracks s ! t)"
  using t
proof (induction t)
  case 0
  then show ?case using inv by (simp add: stack_inv_def)
next
  case (Suc t)
  then have "layer (pluginTracks s ! t) < layer (pluginTracks s ! Suc t)"
    using inv by (simp add: stack_inv_def)
  with Suc show ?case by simp
qed

lemma clearStack_trace:
  assumes inv: "stack_inv s"
  shows "trace (clearStack s) =
           trace s @ clear_events (pluginLayers s) (pluginTracks s)
                       (nat (indexTrackStack s + 1)) (indexLayerStack s)"
proof -
  have nonneg: "\<forall>t < nat (indexTrackStack s + 1). 0 \<le> layer (pluginTracks s ! t)"
    using stack_inv_layers_nonneg [OF inv] by simp
  have "int (nat (indexTrackStack s + 1)) - 1 = indexTrackStack s"
    using inv by (simp add: stack_inv_def)
  then show ?thesis
    using clearStack_tracks_eq [OF nonneg] by (simp add: clearStack_def Let_def)
qed

lemma clearStack_fields:
  assumes inv: "stack_inv s"
  shows "indexLayerStack (clearStack s) = - 1" "indexTrackStack (clearStack s) = - 1"
    "indexTrackEnable (clearStack s) = - 1" "eng_segOffset (clearStack s) = 0"
    "eng_segCount (clearStack s) = numPixels s"
    "pDisplayPixels (clearStack s) = replicate (nat (numPixels s * 3)) 0"
proof -
  have nonneg: "\<forall>t < nat (indexTrackStack s + 1). 0 \<le> layer (pluginTracks s ! t)"
    using stack_inv_layers_nonneg [OF inv] by simp
  have i: "int (nat (indexTrackStack s + 1)) - 1 = indexTrackStack s"
    using inv by (simp add: stack_inv_def)
  show "indexLayerStack (clearStack s) = - 1" "indexTrackStack (clearStack s) = - 1"
    "indexTrackEnable (clearStack s) = - 1" "eng_segOffset (clearStack s) = 0"
    "eng_segCount (clearStack s) = numPixels s"
    "pDisplayPixels (clearStack s) = replicate (nat (numPixels s * 3)) 0"
    using clearStack_tracks_eq [OF nonneg] i by (simp_all add: clearStack_def Let_def)
qed

lemma rev_intervals:
  assumes "\<forall>t < m. a t \<le> a (Suc t)"
  shows "a 0 \<le> a m \<and>
         set (concat (map (\<lambda>t. [a t ..< a (Suc t)]) (rev [0 ..< m]))) = {a 0 ..< a m} \<and>
         distinct (concat (map (\<lambda>t. [a t ..< a (Suc t)]) (rev [0 ..< m])))"
  using assms
proof (induction m)
  case 0
  then show ?case
    by simp
next
  case (Suc m)
  then have ih: "a 0 \<le> a m"
    "set (concat (map (\<lambda>t. [a t ..< a (Suc t)]) (rev [0 ..< m]))) = {a 0 ..< a m}"
    "distinct (concat (map (\<lambda>t. [a t ..< a (Suc t)]) (rev [0 ..< m])))"
    by simp_all
  have step: "a m \<le> a (Suc m)"
    using Suc.prems by simp
  have un: "{a m ..< a (Suc m)} \<union> {a 0 ..< a m} = {a 0 ..< a (Suc m)}"
    using ih(1) step by auto
  have dj: "{a m ..< a (Suc m)} \<inter> {a 0 ..< a m} = {}"
    by auto
  show ?case
    using ih step un dj by simp
qed

lemma clearStack_deleted_layers:
  assumes inv: "stack_inv s" and live: "0 \<le> indexLayerStack s"
  shows "\<exists>idxs. deleted_plugins (clear_events (pluginLayers s) (pluginTracks s)
                    (nat (indexTrackStack s + 1)) (indexLayerStack s)) =
                  map (\<lambda>j. pPlugin (pluginLayers s ! j)) idxs \<and>
                distinct idxs \<and> set idxs = {0 ..< nat (indexLayerStack s)}"
proof -
  let ?n = "nat (indexTrackStack s + 1)"
  let ?L = "indexLayerStack s"
  let ?ls = "pluginLayers s" and ?ts = "pluginTracks s"
  define a where "a t = (if t = ?n then nat ?L else nat (layer (?ts ! t)))" for t
  have n: "0 < ?n"
    using inv live by (auto simp: stack_inv_def)
  have incr: "\<forall>t. Suc t < ?n \<longrightarrow> layer (?ts ! t) < layer (?ts ! Suc t)"
    using inv by (simp add: stack_inv_def)
  have top: "0 < ?n \<longrightarrow> layer (?ts ! (?n - 1)) \<le> ?L"
    using inv by (auto simp: stack_inv_def nat_add_distrib)
  have first: "layer (?ts ! 0) = 0"
    using inv n by (simp add: stack_inv_def)
  have del: "deleted_plugins (clear_events ?ls ?ts ?n ?L) =
     map (\<lambda>j. pPlugin (?ls ! j))
       (concat (map (\<lambda>t. [nat (layer (?ts ! t)) ..<
                            (if Suc t = ?n then nat ?L else nat (layer (?ts ! Suc t)))])
                  (rev [0 ..< ?n])))"
    by (rule deleted_plugins_clear_events [OF incr top])
  have same: "map (\<lambda>t. [nat (layer (?ts ! t)) ..<
                            (if Suc t = ?n then nat ?L else nat (layer (?ts ! Suc t)))])
                  (rev [0 ..< ?n]) =
              map (\<lambda>t. [a t ..< a (Suc t)]) (rev [0 ..< ?n])"
    by (rule map_cong) (auto simp: a_def)
  have mono: "\<forall>t < ?n. a t \<le> a (Suc t)"
  proof (intro allI impI)
    fix t assume t: "t < ?n"
    show "a t \<le> a (Suc t)"
    proof (cases "Suc t = ?n")
      case True
      then have "?n - 1 = t"
        by linarith
      then have "layer (?ts ! t) \<le> ?L"
        using top n by simp
      then show ?thesis
        using True t by (simp add: a_def)
    next
      case False
      then have "layer (?ts ! t) < layer (?ts ! Suc t)"
        using incr t by simp
      then show ?thesis
        using False t by (simp add: a_def)
    qed
  qed
  have a0: "a 0 = 0" and an: "a ?n = nat ?L"
    using n first by (simp_all add: a_def)
  note iv = rev_intervals [OF mono, unfolded a0 an]
  show ?thesis
    unfolding del same using iv by blast
qed

section \<open>Facts about automatic triggering\<close>

lemma triggers_of_append: "triggers_of k (xs @ ys) = triggers_of k xs + triggers_of k ys"
  by (induction k xs rule: triggers_of.induct) simp_all

lemma random_value_range:
  assumes "lo < hi"
  shows "lo \<le> random_value s lo hi \<and> random_value s lo hi < hi"
proof -
  let ?raw = "case rand_src s of [] \<Rightarrow> 0 | x # _ \<Rightarrow> \<bar>x\<bar>"
  have b: "0 \<le> ?raw mod (hi - lo)" "?raw mod (hi - lo) < hi - lo"
    using assms by simp_all
  have "random_value s lo hi = lo + ?raw mod (hi - lo)"
    using assms by (simp add: random_value_def)
  with b show ?thesis
    by linarith
qed

lemma same_frame_refl: "same_frame s s"
  by (simp add: same_frame_def)

lemma untouched_refl: "untouched j s s"
  by (simp add: untouched_def trig_view_def)

lemma same_frame_upd_layer:
  "(\<And>l. track (f l) = track l) \<Longrightarrow> same_frame s (upd_layer i f s') = same_frame s s'"
  by (simp add: same_frame_def upd_layer_def nth_list_update_field [where F = track])

lemma same_frame_upd_track: "same_frame s (upd_track i f s') = same_frame s s'"
  by (simp add: same_frame_def upd_track_def)

lemma same_frame_log_event: "same_frame s (log_event e s') = same_frame s s'"
  by (simp add: same_frame_def log_event_def)

lemma same_frame_random_next: "same_frame s (random_next s' a b) = same_frame s s'"
  by (simp add: same_frame_def random_next_def)

lemma same_frame_pDrawPixels: "same_frame s (s'\<lparr>pDrawPixels := x\<rparr>) = same_frame s s'"
  by (simp add: same_frame_def)

lemma same_frame_triggerLayer: "same_frame s (triggerLayer env s' li force) = same_frame s s'"
  by (simp add: triggerLayer_def Let_def same_frame_log_event same_frame_upd_layer
      same_frame_upd_track)

lemma same_frame_auto_fire: "same_frame s (auto_fire env s' i) = same_frame s s'"
  by (simp add: auto_fire_def Let_def same_frame_upd_layer same_frame_random_next
      same_frame_triggerLayer)

lemma same_frame_CheckAutoTrigger_layer:
  "same_frame s (CheckAutoTrigger_layer env rollover s' i) = same_frame s s'"
  by (simp add: CheckAutoTrigger_layer_def Let_def same_frame_upd_layer same_frame_auto_fire)

lemma untouched_upd_layer_other:
  "j \<noteq> nat i \<Longrightarrow> untouched j s (upd_layer i f s') = untouched j s s'"
  by (simp add: untouched_def trig_view_def upd_layer_def)

lemma untouched_upd_layer_obj:
  "untouched j s (upd_layer i (\<lambda>l. l\<lparr>obj := x\<rparr>) s') = untouched j s s'"
  by (simp add: untouched_def trig_view_def upd_layer_def
      nth_list_update_field [where F = trigActive]
      nth_list_update_field [where F = trigCount]
      nth_list_update_field [where F = trigTimeMsecs]
      nth_list_update_field [where F = trigDelayMin]
      nth_list_update_field [where F = trigDelayRange])

lemma untouched_upd_track: "untouched j s (upd_track i f s') = untouched j s s'"
  by (simp add: untouched_def trig_view_def upd_track_def)

lemma untouched_log_NextStep: "untouched j s (log_event (NextStep k) s') = untouched j s s'"
  by (simp add: untouched_def trig_view_def log_event_def triggers_of_append)

lemma untouched_log_Trigger:
  "j \<noteq> k \<Longrightarrow> untouched j s (log_event (Trigger k f) s') = untouched j s s'"
  by (simp add: untouched_def trig_view_def log_event_def triggers_of_append)

lemma untouched_random_next: "untouched j s (random_next s' a b) = untouched j s s'"
  by (simp add: untouched_def trig_view_def random_next_def)

lemma untouched_pDrawPixels: "untouched j s (s'\<lparr>pDrawPixels := x\<rparr>) = untouched j s s'"
  by (simp add: untouched_def trig_view_def)

lemma untouched_triggerLayer:
  "j \<noteq> nat li \<Longrightarrow> untouched j s (triggerLayer env s' li force) = untouched j s s'"
  by (simp add: triggerLayer_def Let_def untouched_log_Trigger untouched_upd_layer_other
      untouched_upd_track)

lemma untouched_auto_fire:
  "0 \<le> i \<Longrightarrow> i < 256 \<Longrightarrow> j \<noteq> nat i \<Longrightarrow>
   untouched j s (auto_fire env s' i) = untouched j s s'"
  by (simp add: auto_fire_def Let_def untouched_upd_layer_other untouched_random_next
      untouched_triggerLayer u8_id)

lemma untouched_CheckAutoTrigger_layer:
  "0 \<le> i \<Longrightarrow> i < 256 \<Longrightarrow> j \<noteq> nat i \<Longrightarrow>
   untouched j s (CheckAutoTrigger_layer env rollover s' i) = untouched j s s'"
  by (simp add: CheckAutoTrigger_layer_def Let_def untouched_upd_layer_other
      untouched_auto_fire)

lemma untouched_predraw_step: "untouched j s (predraw_step env i s' k) = untouched j s s'"
  by (simp add: predraw_step_def Let_def untouched_log_NextStep untouched_upd_layer_obj
      untouched_upd_track)

lemma untouched_predraw_from: "untouched j s (predraw_from env i s' k) = untouched j s s'"
proof (induction env i s' k rule: predraw_from.induct)
  case (1 env i s' k)
  then show ?case
    by (subst predraw_from.simps) (simp add: untouched_predraw_step)
qed

lemma untouched_redraw_nextstep: "untouched j s (redraw_nextstep env s' i) = untouched j s s'"
  by (simp add: redraw_nextstep_def Let_def untouched_log_NextStep untouched_upd_layer_obj
      untouched_upd_track untouched_pDrawPixels)

lemma untouched_redraw_schedule: "untouched j s (redraw_schedule s' i) = untouched j s s'"
  by (simp add: redraw_schedule_def Let_def untouched_upd_track)

lemma untouched_redraw_now: "untouched j s (redraw_now env s' i) = untouched j s s'"
  by (simp add: redraw_now_def Let_def untouched_redraw_schedule untouched_redraw_nextstep
      untouched_upd_track untouched_predraw_from untouched_pDrawPixels)

lemma untouched_redraw_track:
  "untouched j s (fst (redraw_track env rollover s' i)) = untouched j s s'"
  by (simp add: redraw_track_def Let_def untouched_redraw_now untouched_upd_track)

lemma untouched_redraw_from:
  "untouched j s (fst (redraw_from env rollover s' i doshow)) = untouched j s s'"
proof (induction env rollover s' i doshow rule: redraw_from.induct)
  case (1 env rollover s' i doshow)
  then show ?case
    by (subst redraw_from.simps) (simp add: untouched_redraw_track)
qed

lemma timePrevUpdate_upd_layer: "timePrevUpdate (upd_layer i f s) = timePrevUpdate s"
  by (simp add: upd_layer_def)

lemma timePrevUpdate_upd_track: "timePrevUpdate (upd_track i f s) = timePrevUpdate s"
  by (simp add: upd_track_def)

lemma timePrevUpdate_log_event: "timePrevUpdate (log_event e s) = timePrevUpdate s"
  by (simp add: log_event_def)

lemma timePrevUpdate_predraw_step: "timePrevUpdate (predraw_step env i s k) = timePrevUpdate s"
  by (simp add: predraw_step_def Let_def timePrevUpdate_log_event timePrevUpdate_upd_layer
      timePrevUpdate_upd_track)

lemma timePrevUpdate_predraw_from: "timePrevUpdate (predraw_from env i s k) = timePrevUpdate s"
proof (induction env i s k rule: predraw_from.induct)
  case (1 env i s k)
  then show ?case
    by (subst predraw_from.simps) (simp add: timePrevUpdate_predraw_step)
qed

lemma timePrevUpdate_redraw_now: "timePrevUpdate (redraw_now env s i) = timePrevUpdate s"
  by (simp add: redraw_now_def redraw_schedule_def redraw_nextstep_def Let_def
      timePrevUpdate_log_event timePrevUpdate_upd_layer timePrevUpdate_upd_track
      timePrevUpdate_predraw_from)

lemma timePrevUpdate_redraw_track:
  "timePrevUpdate (fst (redraw_track env rollover s i)) = timePrevUpdate s"
  by (simp add: redraw_track_def Let_def timePrevUpdate_redraw_now timePrevUpdate_upd_track)

lemma timePrevUpdate_redraw_from:
  "timePrevUpdate (fst (redraw_from env rollover s i doshow)) = timePrevUpdate s"
proof (induction env rollover s i doshow rule: redraw_from.induct)
  case (1 env rollover s i doshow)
  then show ?case
    by (subst redraw_from.simps) (simp add: timePrevUpdate_redraw_track)
qed

lemma pluginLayers_random_next: "pluginLayers (random_next s a b) = pluginLayers s"
  by (simp add: random_next_def)

lemma timePrevUpdate_random_next: "timePrevUpdate (random_next s a b) = timePrevUpdate s"
  by (simp add: random_next_def)

lemma trace_random_next: "trace (random_next s a b) = trace s"
  by (simp add: random_next_def)

lemma pluginLayers_upd_layer:
  "pluginLayers (upd_layer i f s) = (pluginLayers s)[nat i := f (pluginLayers s ! nat i)]"
  by (simp add: upd_layer_def)

lemma trace_upd_layer: "trace (upd_layer i f s) = trace s"
  by (simp add: upd_layer_def)

lemma timePrevUpdate_triggerLayer:
  "timePrevUpdate (triggerLayer env s li force) = timePrevUpdate s"
  by (simp add: triggerLayer_def Let_def timePrevUpdate_log_event timePrevUpdate_upd_layer
      timePrevUpdate_upd_track)

lemma auto_fire_self:
  assumes i: "0 \<le> i" "i < 256" "nat i < length (pluginLayers s)"
  shows "trigActive (pluginLayers (auto_fire env s i) ! nat i) \<and>
         trigCount (pluginLayers (auto_fire env s i) ! nat i) =
           (if trigCount (pluginLayers s ! nat i) > 0 then trigCount (pluginLayers s ! nat i) - 1
            else trigCount (pluginLayers s ! nat i)) \<and>
         trigDelayMin (pluginLayers (auto_fire env s i) ! nat i) =
           trigDelayMin (pluginLayers s ! nat i) \<and>
         trigDelayRange (pluginLayers (auto_fire env s i) ! nat i) =
           trigDelayRange (pluginLayers s ! nat i) \<and>
         (\<exists>secs. trigTimeMsecs (pluginLayers (auto_fire env s i) ! nat i) =
                   u32 (timePrevUpdate s + 1000 * secs) \<and>
                 (0 \<le> trigDelayRange (pluginLayers s ! nat i) \<longrightarrow>
                    trigDelayMin (pluginLayers s ! nat i) \<le> secs \<and>
                    secs \<le> trigDelayMin (pluginLayers s ! nat i) +
                             trigDelayRange (pluginLayers s ! nat i))) \<and>
         (\<exists>f. trace (auto_fire env s i) = trace s @ [Trigger (nat i) f])"
proof -
  let ?l = "pluginLayers s ! nat i"
  let ?s2 = "if trigForce ?l \<ge> 0 then s else random_next s 0 (MAX_FORCE_VALUE + 1)"
  let ?f = "s16 (if trigForce ?l \<ge> 0 then trigForce ?l
                 else random_value s 0 (MAX_FORCE_VALUE + 1))"
  let ?s3 = "triggerLayer env ?s2 (u8 i) ?f"
  let ?lo = "trigDelayMin ?l" and ?hi = "trigDelayMin ?l + trigDelayRange ?l + 1"
  let ?secs = "random_value ?s3 ?lo ?hi"
  have u: "u8 i = i"
    using i by (simp add: u8_id)
  have l2: "pluginLayers ?s2 = pluginLayers s" "timePrevUpdate ?s2 = timePrevUpdate s"
    "trace ?s2 = trace s"
    by (simp_all add: pluginLayers_random_next timePrevUpdate_random_next trace_random_next)
  have l3: "pluginLayers ?s3 ! nat i =
      ?l\<lparr>obj := fst (trigger env (obj ?l) (draw (pluginTracks ?s2 ! nat (track ?l))) ?f),
         trigActive := True\<rparr>"
    using i unfolding pluginLayers_triggerLayer u l2 by simp
  have len3: "nat i < length (pluginLayers ?s3)"
    using i unfolding pluginLayers_triggerLayer u l2 by simp
  have t3: "timePrevUpdate ?s3 = timePrevUpdate s"
    unfolding timePrevUpdate_triggerLayer l2 ..
  have tr3: "trace ?s3 = trace s @ [Trigger (nat i) ?f]"
    unfolding trace_triggerLayer u l2 ..
  have af: "pluginLayers (auto_fire env s i) ! nat i =
      (let l5 = (pluginLayers ?s3 ! nat i)\<lparr>trigTimeMsecs := u32 (timePrevUpdate s + 1000 * ?secs)\<rparr>
       in if trigCount l5 > 0 then l5\<lparr>trigCount := trigCount l5 - 1\<rparr> else l5)"
    using len3
    by (simp add: auto_fire_def Let_def pluginLayers_upd_layer pluginLayers_random_next
        timePrevUpdate_random_next t3 l3)
  have tr: "trace (auto_fire env s i) = trace ?s3"
    by (simp add: auto_fire_def Let_def trace_upd_layer trace_random_next)
  have rng: "0 \<le> trigDelayRange ?l \<Longrightarrow> ?lo \<le> ?secs \<and> ?secs \<le> ?lo + trigDelayRange ?l"
    using random_value_range [of ?lo ?hi ?s3] by simp
  have tm: "\<exists>secs. trigTimeMsecs (pluginLayers (auto_fire env s i) ! nat i) =
                   u32 (timePrevUpdate s + 1000 * secs) \<and>
                 (0 \<le> trigDelayRange ?l \<longrightarrow> ?lo \<le> secs \<and> secs \<le> ?lo + trigDelayRange ?l)"
    unfolding af l3 Let_def using rng by (intro exI [of _ ?secs]) simp
  have fl: "trigActive (pluginLayers (auto_fire env s i) ! nat i)"
    "trigCount (pluginLayers (auto_fire env s i) ! nat i) =
           (if trigCount ?l > 0 then trigCount ?l - 1 else trigCount ?l)"
    "trigDelayMin (pluginLayers (auto_fire env s i) ! nat i) = trigDelayMin ?l"
    "trigDelayRange (pluginLayers (auto_fire env s i) ! nat i) = trigDelayRange ?l"
    unfolding af l3 Let_def by simp_all
  from fl tm tr tr3 show ?thesis
    by simp
qed

lemma visited_CheckAutoTrigger_layer:
  assumes i: "0 \<le> i" "i < 256" "nat i < length (pluginLayers s)"
  shows "visited rollover (timePrevUpdate s) (nat i) s (CheckAutoTrigger_layer env rollover s i)"
proof -
  let ?l = "pluginLayers s ! nat i"
  let ?s1 = "if rollover \<and> trigTimeMsecs ?l > 0
             then upd_layer i (\<lambda>l. l\<lparr>trigTimeMsecs := timePrevUpdate s\<rparr>) s else s"
  let ?due = "if rollover \<and> trigTimeMsecs ?l > 0 then timePrevUpdate s else trigTimeMsecs ?l"
  let ?l1 = "pluginLayers ?s1 ! nat i"
  define t where "t = timePrevUpdate s"
  define a where "a = trigActive ?l"
  define c where "c = trigCount ?l"
  define tm where "tm = trigTimeMsecs ?l"
  define mn where "mn = trigDelayMin ?l"
  define rg where "rg = trigDelayRange ?l"
  define n where "n = triggers_of (nat i) (trace s)"
  define due where "due = (if rollover \<and> tm > 0 then t else tm)"
  define s' where "s' = CheckAutoTrigger_layer env rollover s i"
  define l' where "l' = pluginLayers s' ! nat i"
  define n' where "n' = triggers_of (nat i) (trace s')"
  have l1: "?l1 = ?l\<lparr>trigTimeMsecs := ?due\<rparr>"
    using i by (simp add: pluginLayers_upd_layer)
  have f1: "trigActive ?l1 = a" "trigCount ?l1 = c"
    "trigTimeMsecs ?l1 = due" "trigDelayMin ?l1 = mn" "trigDelayRange ?l1 = rg"
    unfolding l1 a_def c_def due_def tm_def t_def mn_def rg_def by simp_all
  have s1: "timePrevUpdate ?s1 = t" "trace ?s1 = trace s"
    "length (pluginLayers ?s1) = length (pluginLayers s)"
    unfolding t_def
    by (simp_all add: timePrevUpdate_upd_layer trace_upd_layer pluginLayers_upd_layer)
  have res: "s' = (if a \<and> c \<noteq> 0 \<and> due > 0 \<and> due \<le> t then auto_fire env ?s1 i else ?s1)"
    unfolding s'_def CheckAutoTrigger_layer_def Let_def f1 s1 ..
  have pass: "layer_pass rollover t (a, c, tm, mn, rg, n)
                (trigActive l', trigCount l', trigTimeMsecs l', trigDelayMin l',
                 trigDelayRange l', n')"
  proof (cases "a \<and> c \<noteq> 0 \<and> due > 0 \<and> due \<le> t")
    case False
    have eq: "s' = ?s1"
      unfolding res by (rule if_not_P [OF False])
    have "trigActive l' = a" "trigCount l' = c" "trigTimeMsecs l' = due"
      "trigDelayMin l' = mn" "trigDelayRange l' = rg" "n' = n"
      unfolding l'_def n'_def eq f1 s1 n_def by (rule refl)+
    with False show ?thesis
      unfolding due_def by simp
  next
    case True
    have eq: "s' = auto_fire env ?s1 i"
      unfolding res by (rule if_P [OF True])
    have len: "nat i < length (pluginLayers ?s1)"
      using i s1 by simp
    note af = auto_fire_self [OF i(1,2) len, of env, unfolded f1 s1, folded eq, folded l'_def]
    from af obtain f where tr: "trace s' = trace s @ [Trigger (nat i) f]"
      by blast
    have n: "n' = n + 1"
      unfolding n'_def n_def tr by (simp add: triggers_of_append)
    from af have fl: "trigActive l'" "trigCount l' = (if c > 0 then c - 1 else c)"
      "trigDelayMin l' = mn" "trigDelayRange l' = rg"
      "\<exists>secs. trigTimeMsecs l' = u32 (t + 1000 * secs) \<and>
              (0 \<le> rg \<longrightarrow> mn \<le> secs \<and> secs \<le> mn + rg)"
      by blast+
    from True fl n show ?thesis
      unfolding due_def by simp
  qed
  show ?thesis
    using pass
    unfolding visited_def trig_view_def s'_def l'_def n'_def a_def c_def tm_def mn_def rg_def
      n_def t_def .
qed

lemma visited_untouched:
  assumes u0: "untouched j s0 s" and v: "visited rollover t j s s'" and u1: "untouched j s' s''"
  shows "visited rollover t j s0 s''"
proof -
  have a: "trig_view j s0 = trig_view j s"
    using u0 by (simp only: untouched_def)
  have b: "trig_view j s'' = trig_view j s'"
    using u1 by (simp only: untouched_def)
  show ?thesis
    unfolding visited_def a b using v unfolding visited_def .
qed

lemma untouched_trans:
  assumes "untouched j s s'" "untouched j s' s''"
  shows "untouched j s s''"
  using assms unfolding untouched_def by (rule trans [OF _ _, rotated])

lemma same_frame_CheckAutoTrigger_from:
  "same_frame s (CheckAutoTrigger_from env rollover s' i) = same_frame s s'"
proof (induction env rollover s' i rule: CheckAutoTrigger_from.induct)
  case (1 env rollover s' i)
  then show ?case
    by (subst CheckAutoTrigger_from.simps) (simp add: same_frame_CheckAutoTrigger_layer)
qed

lemma untouched_CheckAutoTrigger_from:
  "0 \<le> i \<Longrightarrow> j < nat i \<Longrightarrow> indexLayerStack s' < 256 \<Longrightarrow>
   untouched j s (CheckAutoTrigger_from env rollover s' i) = untouched j s s'"
proof (induction env rollover s' i rule: CheckAutoTrigger_from.induct)
  case (1 env rollover s' i)
  show ?case
  proof (cases "i \<le> indexLayerStack s' \<and> \<not> track (pluginLayers s' ! nat i) > indexTrackEnable s'")
    case False
    then show ?thesis
      by (subst CheckAutoTrigger_from.simps) auto
  next
    case True
    let ?s1 = "CheckAutoTrigger_layer env rollover s' i"
    have i: "0 \<le> i" "i < 256" "j \<noteq> nat i"
      using True "1.prems" by simp_all
    have ih: "untouched j s (CheckAutoTrigger_from env rollover ?s1 (i + 1)) = untouched j s ?s1"
      using True "1.prems"
      by (intro "1.IH") (simp_all add: indexLayerStack_CheckAutoTrigger_layer)
    have "CheckAutoTrigger_from env rollover s' i =
            CheckAutoTrigger_from env rollover ?s1 (i + 1)"
      using True by (subst CheckAutoTrigger_from.simps) simp
    then show ?thesis
      by (simp only: ih untouched_CheckAutoTrigger_layer [OF i])
  qed
qed

lemma CheckAutoTrigger_from_view:
  assumes "0 \<le> i" "nat i \<le> j" "int j \<le> indexLayerStack s" "indexLayerStack s < 256"
    "indexLayerStack s < int (length (pluginLayers s))"
  shows "if list_all (\<lambda>m. track (pluginLayers s ! m) \<le> indexTrackEnable s) [nat i ..< Suc j]
         then visited rollover (timePrevUpdate s) j s (CheckAutoTrigger_from env rollover s i)
         else untouched j s (CheckAutoTrigger_from env rollover s i)"
  using assms
proof (induction env rollover s i rule: CheckAutoTrigger_from.induct)
  case (1 env rollover s i)
  let ?P = "\<lambda>s m. track (pluginLayers s ! m) \<le> indexTrackEnable s"
  let ?s1 = "CheckAutoTrigger_layer env rollover s i"
  let ?s' = "CheckAutoTrigger_from env rollover s i"
  have le: "i \<le> indexLayerStack s"
    using "1.prems" by linarith
  have upt: "[nat i ..< Suc j] = nat i # [nat (i + 1) ..< Suc j]"
  proof -
    have lt: "nat i < Suc j"
      using "1.prems" by simp
    have suc: "nat (i + 1) = Suc (nat i)"
      using "1.prems" by simp
    show ?thesis
      unfolding suc by (rule upt_conv_Cons [OF lt])
  qed
  show ?case
  proof (cases "?P s (nat i)")
    case False
    then have "?s' = s"
      using le by (subst CheckAutoTrigger_from.simps) simp
    with False show ?thesis
      unfolding upt by (simp add: untouched_refl)
  next
    case True
    have unf: "?s' = CheckAutoTrigger_from env rollover ?s1 (i + 1)"
      using le True by (subst CheckAutoTrigger_from.simps) simp
    have fr: "same_frame s ?s1"
      by (simp add: same_frame_CheckAutoTrigger_layer same_frame_refl)
    have fr': "timePrevUpdate ?s1 = timePrevUpdate s" "indexTrackEnable ?s1 = indexTrackEnable s"
      "indexLayerStack ?s1 = indexLayerStack s"
      "length (pluginLayers ?s1) = length (pluginLayers s)"
      "\<And>m. track (pluginLayers ?s1 ! m) = track (pluginLayers s ! m)"
      using fr by (simp_all add: same_frame_def)
    have i: "0 \<le> i" "i < 256" "nat i < length (pluginLayers s)"
      using "1.prems" le by simp_all
    show ?thesis
    proof (cases "nat i = j")
      case eq: True
      have v: "visited rollover (timePrevUpdate s) j s ?s1"
        using visited_CheckAutoTrigger_layer [OF i, of rollover env] eq by simp
      have u: "untouched j ?s1 ?s'"
        unfolding unf using i eq "1.prems"
        by (subst untouched_CheckAutoTrigger_from) (simp_all add: fr' untouched_refl)
      have "visited rollover (timePrevUpdate s) j s ?s'"
        by (rule visited_untouched [OF untouched_refl v u])
      moreover have "[nat (i + 1) ..< Suc j] = []"
        using eq i by simp
      ultimately show ?thesis
        using True unfolding upt by simp
    next
      case neq: False
      have u: "untouched j s ?s1"
        using i neq
        by (simp add: untouched_CheckAutoTrigger_layer untouched_refl)
      have ih: "if list_all (?P ?s1) [nat (i + 1) ..< Suc j]
                then visited rollover (timePrevUpdate ?s1) j ?s1
                       (CheckAutoTrigger_from env rollover ?s1 (i + 1))
                else untouched j ?s1 (CheckAutoTrigger_from env rollover ?s1 (i + 1))"
        using le True "1.prems" neq
        by (intro "1.IH") (simp_all add: fr')
      show ?thesis
      proof (cases "list_all (?P s) [nat (i + 1) ..< Suc j]")
        case all: True
        with ih have "visited rollover (timePrevUpdate s) j ?s1 ?s'"
          unfolding unf by (simp add: fr')
        then have "visited rollover (timePrevUpdate s) j s ?s'"
          by (rule visited_untouched [OF u _ untouched_refl])
        with all True show ?thesis
          unfolding upt by simp
      next
        case nall: False
        with ih have "untouched j ?s1 ?s'"
          unfolding unf by (simp add: fr')
        then have "untouched j s ?s'"
          by (rule untouched_trans [OF u])
        with nall show ?thesis
          unfolding upt by simp
      qed
    qed
  qed
qed

lemma updateEffects_view:
  assumes j: "int j \<le> indexLayerStack s" "indexLayerStack s < 256"
      "indexLayerStack s < int (length (pluginLayers s))"
    and r: "updateEffects env s = Some (b, s')"
  shows "timePrevUpdate s' = clock s \<and>
         (if within_frontier s j
          then visited (clock s < timePrevUpdate s) (clock s) j s s'
          else untouched j s s')"
proof -
  let ?r = "clock s < timePrevUpdate s"
  let ?s0 = "s\<lparr>timePrevUpdate := clock s\<rparr>"
  let ?s1 = "CheckAutoTrigger_from env ?r ?s0 0"
  let ?s3 = "fst (redraw_from env ?r ?s1 0 (timePrevUpdate s = 0))"
  have u0: "untouched j s ?s0"
    by (simp add: untouched_def trig_view_def)
  have f0: "timePrevUpdate ?s0 = clock s" "indexTrackEnable ?s0 = indexTrackEnable s"
    "indexLayerStack ?s0 = indexLayerStack s" "pluginLayers ?s0 = pluginLayers s"
    by simp_all
  have fr: "same_frame ?s0 ?s1"
    by (simp only: same_frame_CheckAutoTrigger_from same_frame_refl)
  have t1: "timePrevUpdate ?s1 = clock s"
    using fr unfolding same_frame_def f0 by simp
  have t3: "timePrevUpdate ?s3 = clock s"
    unfolding timePrevUpdate_redraw_from t1 ..
  have u13: "untouched j ?s1 ?s3"
    by (simp only: untouched_redraw_from untouched_refl)
  have cat: "if within_frontier s j then visited ?r (clock s) j ?s0 ?s1 else untouched j ?s0 ?s1"
    using CheckAutoTrigger_from_view [of 0 j ?s0 ?r env] j
    unfolding f0 within_frontier_def by simp
  have v3: "if within_frontier s j then visited ?r (clock s) j s ?s3 else untouched j s ?s3"
  proof (cases "within_frontier s j")
    case True
    with cat have "visited ?r (clock s) j ?s0 ?s1"
      by simp
    then have "visited ?r (clock s) j s ?s3"
      by (rule visited_untouched [OF u0 _ u13])
    with True show ?thesis
      by simp
  next
    case False
    with cat have "untouched j ?s0 ?s1"
      by simp
    then have "untouched j s ?s3"
      by (intro untouched_trans [OF u0] untouched_trans [OF _ u13])
    with False show ?thesis
      by simp
  qed
  have "s' = ?s3 \<or> (\<exists>d. s' = ?s3\<lparr>pDisplayPixels := d\<rparr>)"
    using r by (auto simp: updateEffects_def CheckAutoTrigger_def Let_def
        split: if_splits option.splits)
  then obtain d where s': "s' = ?s3 \<or> s' = ?s3\<lparr>pDisplayPixels := d\<rparr>"
    by blast
  have same: "timePrevUpdate s' = timePrevUpdate ?s3" "untouched j ?s3 s'"
    using s' by (auto simp: untouched_def trig_view_def)
  have "if within_frontier s j then visited ?r (clock s) j s s' else untouched j s s'"
  proof (cases "within_frontier s j")
    case True
    with v3 have "visited ?r (clock s) j s ?s3"
      by simp
    then have "visited ?r (clock s) j s s'"
      by (rule visited_untouched [OF untouched_refl _ same(2)])
    with True show ?thesis
      by simp
  next
    case False
    with v3 have "untouched j s ?s3"
      by simp
    then have "untouched j s s'"
      by (rule untouched_trans [OF _ same(2)])
    with False show ?thesis
      by simp
  qed
  then show ?thesis
    unfolding same(1) t3 by simp
qed

lemma updateEffects_pass:
  assumes j: "int j \<le> indexLayerStack s" "indexLayerStack s < 256"
      "indexLayerStack s < int (length (pluginLayers s))"
    and r: "updateEffects env s = Some (b, s')"
  shows "layer_pass (clock s < timePrevUpdate s) (clock s) (trig_view j s) (trig_view j s') \<or>
         trig_view j s' = trig_view j s"
  using updateEffects_view [OF j r]
  by (cases "within_frontier s j") (simp_all add: visited_def untouched_def)


lemma updateEffects_count:
  assumes j: "int j \<le> indexLayerStack s" "indexLayerStack s < 256"
      "indexLayerStack s < int (length (pluginLayers s))"
    and r: "updateEffects env s = Some (b, s')"
    and c: "0 \<le> trigCount (pluginLayers s ! j)"
  shows "trigDelayMin (pluginLayers s' ! j) = trigDelayMin (pluginLayers s ! j) \<and>
         trigDelayRange (pluginLayers s' ! j) = trigDelayRange (pluginLayers s ! j) \<and>
         0 \<le> trigCount (pluginLayers s' ! j) \<and>
         int (triggers_of j (trace s')) + trigCount (pluginLayers s' ! j) =
           int (triggers_of j (trace s)) + trigCount (pluginLayers s ! j) \<and>
         triggers_of j (trace s) \<le> triggers_of j (trace s')"
  using updateEffects_pass [OF j r] c
  unfolding trig_view_def layer_pass.simps
  by (auto split: if_splits)

lemma updateEffects_blocked:
  assumes j: "int j \<le> indexLayerStack s" "indexLayerStack s < 256"
      "indexLayerStack s < int (length (pluginLayers s))"
    and r: "updateEffects env s = Some (b, s')"
    and c: "trigCount (pluginLayers s ! j) = 0"
    and tm: "0 < trigTimeMsecs (pluginLayers s ! j)" and t: "0 < clock s"
  shows "0 < trigTimeMsecs (pluginLayers s' ! j)"
  using updateEffects_pass [OF j r] c tm t
  unfolding trig_view_def layer_pass.simps
  by (auto split: if_splits)













section \<open>The claims\<close>

subsection \<open>C1: clearStack\<close>

text \<open>
  C1 asks that \<open>clearStack\<close> (also run by the \<open>P\<close> command) destroy every layer's plugin.
  The code does not: the inner loop runs while \<open>j < indexLayerStack\<close>, so in every engine
  reachable by any sequence of operations that has a layer, \<open>clearStack\<close> deletes the
  plugin of each layer below the top one exactly once and never the plugin of the top
  layer; with \<open>n\<close> layers it runs \<open>n - 1\<close> destructors. The rest is as C1 says: it frees
  every track's redraw buffer (the last track's first), resets \<open>indexLayerStack\<close>,
  \<open>indexTrackStack\<close> and \<open>indexTrackEnable\<close> to -1, zeroes the whole display buffer and
  restores the segment staging to offset 0 and the full strip length; and the \<open>P\<close> command
  is \<open>clearStack\<close> followed by the reset of the update time.
\<close>

theorem C1_clearStack_leaks_top_plugin:
  assumes reach: "reachable env s" and live: "0 \<le> indexLayerStack s"
  shows "\<exists>new idxs. trace (clearStack s) = trace s @ new \<and>
           deleted_plugins new = map (\<lambda>j. pPlugin (pluginLayers s ! j)) idxs \<and>
           distinct idxs \<and> set idxs = {0 ..< nat (indexLayerStack s)} \<and>
           nat (indexLayerStack s) \<notin> set idxs \<and>
           length (deleted_plugins new) + 1 = length (live_layers s) \<and>
           freed_tracks new = rev [0 ..< nat (indexTrackStack s + 1)] \<and>
           indexLayerStack (clearStack s) = - 1 \<and>
           indexTrackStack (clearStack s) = - 1 \<and>
           indexTrackEnable (clearStack s) = - 1 \<and>
           pDisplayPixels (clearStack s) = replicate (nat (numPixels s * 3)) 0 \<and>
           eng_segOffset (clearStack s) = 0 \<and>
           eng_segCount (clearStack s) = numPixels s \<and>
           execCmdStr env s ''P'' = (Status_Success, (clearStack s)\<lparr>timePrevUpdate := 0\<rparr>)"
proof -
  have inv: "stack_inv s"
    using reach by (rule reachable_stack_inv)
  let ?n = "nat (indexTrackStack s + 1)"
  let ?new = "clear_events (pluginLayers s) (pluginTracks s) ?n (indexLayerStack s)"
  obtain idxs where idxs: "deleted_plugins ?new = map (\<lambda>j. pPlugin (pluginLayers s ! j)) idxs"
      "distinct idxs" "set idxs = {0 ..< nat (indexLayerStack s)}"
    using clearStack_deleted_layers [OF inv live] by blast
  have top: "nat (indexLayerStack s) \<notin> set idxs"
    unfolding idxs(3) by simp
  have "length idxs = card (set idxs)"
    using idxs(2) by (simp add: distinct_card)
  then have len: "length idxs = nat (indexLayerStack s)"
    unfolding idxs(3) by simp
  have "nat (indexLayerStack s + 1) \<le> length (pluginLayers s)"
    using inv unfolding stack_inv_def by linarith
  then have count: "length (deleted_plugins ?new) + 1 = length (live_layers s)"
    using live len by (simp add: idxs(1) live_layers_def)
  have bufs: "\<forall>t < ?n. pRedrawBuff (pluginTracks s ! t) \<noteq> None"
    using inv by (simp add: stack_inv_def)
  have tr: "trace (clearStack s) = trace s @ ?new"
    by (rule clearStack_trace [OF inv])
  have fr: "freed_tracks ?new = rev [0 ..< ?n]"
    by (rule freed_tracks_clear_events [OF bufs])
  have P: "execCmdStr env s ''P'' = (Status_Success, (clearStack s)\<lparr>timePrevUpdate := 0\<rparr>)"
    using execCmdStr_single [of "[]" "CHR ''P''" env s]
    by (simp add: exec_cmd_def cmd_P_def toupper_def)
  show ?thesis
    using tr idxs top count fr clearStack_fields [OF inv] P by blast
qed

theorem C1_clearStack_leaks_top_plugin_witness:
  "length (live_layers one_layer) = 1 \<and>
   trace one_layer = [New 0, Begin 0 0 10] \<and>
   trace (snd (execCmdStr demo_env one_layer ''P'')) = [New 0, Begin 0 0 10, Free 0] \<and>
   (\<exists>new. trace (clearStack one_layer) = trace one_layer @ new \<and> deleted_plugins new = [])"
proof -
  have r: "reachable demo_env one_layer"
    unfolding one_layer_def demo_engine_def
    by (intro reachable.execCmdStr reachable.constructed) simp_all
  have l: "0 \<le> indexLayerStack one_layer"
    by code_simp
  have n: "nat (indexLayerStack one_layer) = 0"
    by code_simp
  have c: "length (live_layers one_layer) = 1" "trace one_layer = [New 0, Begin 0 0 10]"
    "trace (snd (execCmdStr demo_env one_layer ''P'')) = [New 0, Begin 0 0 10, Free 0]"
    by code_simp+
  show ?thesis
    using C1_clearStack_leaks_top_plugin [OF r l] n c by auto
qed

subsection \<open>C2: a rejected add_layer changes nothing\<close>

text \<open>
  C2. \<open>NewPluginLayer\<close>, which the \<open>E\<close> command calls, is atomic on failure. For every
  rejection (the layer stack is full; the factory returns none; a predraw plugin when no
  track exists; a redraw plugin when the track stack is full; the redraw buffer cannot
  be allocated) it returns the corresponding status (\<open>Memory\<close>, \<open>BadVal\<close>, \<open>BadCmd\<close>,
  \<open>Memory\<close>, \<open>Memory\<close>); a plugin obtained from the factory is deleted; the live layers and
  tracks, with their draw properties, are as before; and no other member of the engine is
  changed: the engine after the call differs from the engine before it only in slots
  above the stack indices and in its surroundings (the allocation source, the serial
  number of the next plugin and the events). The \<open>E\<close> command with a number in range is
  this call.
\<close>

theorem C2_add_layer_atomic_on_failure:
  assumes rej: "spec_rejection env s plugin"
  shows "fst (NewPluginLayer env s plugin segindex) = spec_reject_status env s plugin \<and>
         trace (snd (NewPluginLayer env s plugin segindex)) =
           trace s @ spec_reject_events env s plugin \<and>
         live_layers (snd (NewPluginLayer env s plugin segindex)) = live_layers s \<and>
         live_tracks (snd (NewPluginLayer env s plugin segindex)) = live_tracks s \<and>
         (snd (NewPluginLayer env s plugin segindex))
           \<lparr>pluginLayers := pluginLayers s, pluginTracks := pluginTracks s,
            alloc_src := alloc_src s, next_ptr := next_ptr s, trace := trace s\<rparr> = s \<and>
         (0 \<le> GetNumValue2 arg (MAX_PLUGIN_VALUE env) \<longrightarrow>
            cmd_E env s k arg =
              NewPluginLayer env s (GetNumValue2 arg (MAX_PLUGIN_VALUE env))
                (if k < 0 then 0 else k))"
proof -
  have E: "0 \<le> GetNumValue2 arg (MAX_PLUGIN_VALUE env) \<longrightarrow>
            cmd_E env s k arg =
              NewPluginLayer env s (GetNumValue2 arg (MAX_PLUGIN_VALUE env))
                (if k < 0 then 0 else k)"
    by (simp add: cmd_E_def Let_def)
  have N: "fst (NewPluginLayer env s plugin segindex) = spec_reject_status env s plugin \<and>
         trace (snd (NewPluginLayer env s plugin segindex)) =
           trace s @ spec_reject_events env s plugin \<and>
         live_layers (snd (NewPluginLayer env s plugin segindex)) = live_layers s \<and>
         live_tracks (snd (NewPluginLayer env s plugin segindex)) = live_tracks s \<and>
         (snd (NewPluginLayer env s plugin segindex))
           \<lparr>pluginLayers := pluginLayers s, pluginTracks := pluginTracks s,
            alloc_src := alloc_src s, next_ptr := next_ptr s, trace := trace s\<rparr> = s"
  proof (cases "indexLayerStack s + 1 \<ge> maxPluginLayers s")
    case True
    then show ?thesis
      by (simp add: NewPluginLayer_full spec_reject_status_def spec_reject_events_def)
  next
    case notfull: False
    show ?thesis
    proof (cases "makePlugin env plugin")
      case None
      then show ?thesis
        using notfull
        by (simp add: NewPluginLayer_no_plugin spec_reject_status_def spec_reject_events_def)
    next
      case (Some p)
      show ?thesis
      proof (cases "is_redraw env p")
        case False
        then have "indexTrackStack s < 0"
          using rej notfull Some by (simp add: spec_rejection_def)
        then show ?thesis
          using notfull Some False
          by (simp add: NewPluginLayer_no_track spec_reject_status_def spec_reject_events_def
              live_layers_def live_tracks_def)
      next
        case True
        show ?thesis
        proof (cases "indexTrackStack s + 1 \<ge> maxPluginTracks s")
          case full: True
          then show ?thesis
            using notfull Some True
            by (simp add: NewPluginLayer_tracks_full spec_reject_status_def
                spec_reject_events_def live_layers_def live_tracks_def)
        next
          case room: False
          then have "\<not> malloc_ok s"
            using rej notfull Some True by (simp add: spec_rejection_def)
          then show ?thesis
            using notfull Some True room
            by (simp add: NewPluginLayer_alloc_failed spec_reject_status_def
                spec_reject_events_def live_layers_def live_tracks_def pushed_def Let_def)
        qed
      qed
    qed
  qed
  show ?thesis
    using N E by simp
qed

theorem C2_add_layer_atomic_on_failure_witness:
  "fst (NewPluginLayer demo_env out_of_memory 0 0) = Status_Error_Memory \<and>
   trace (snd (NewPluginLayer demo_env out_of_memory 0 0)) =
     trace out_of_memory @ [New 1, Begin 1 1 10, Delete 1] \<and>
   live_layers (snd (NewPluginLayer demo_env out_of_memory 0 0)) = live_layers out_of_memory \<and>
   live_tracks (snd (NewPluginLayer demo_env out_of_memory 0 0)) = live_tracks out_of_memory"
proof -
  have h: "spec_rejection demo_env out_of_memory 0"
    by code_simp
  have st: "spec_reject_status demo_env out_of_memory 0 = Status_Error_Memory"
    by code_simp
  have ev: "spec_reject_events demo_env out_of_memory 0 = [New 1, Begin 1 1 10, Delete 1]"
    by code_simp
  show ?thesis
    using C2_add_layer_atomic_on_failure [OF h, of 0] st ev by simp
qed

subsection \<open>C4: a finite count of automatic triggers\<close>



subsection \<open>C5: the trigger times after a rollover of the clock\<close>




subsection \<open>C6: the ranges of the draw properties\<close>

text \<open>
  C6. The claim is that every existing track has \<open>pixCount\<close> in \<open>[1, segCount]\<close> for its own
  segment length, also after a \<open>C\<close> command issued while the engine's staged segment count
  differs from the track's. The \<open>C\<close> command maps the percentage onto the staged count
  \<open>eng_segCount\<close>, not onto the track's \<open>segCount\<close> as the \<open>Q\<close> command and
  \<open>SetPropCount\<close> do. On the strip of 10 pixels, \<open>Y5 E0 Y C100\<close> succeeds and leaves the
  only track, whose segment has 5 pixels, with a pixel count of 10.
\<close>

theorem C6_pixCount_exceeds_track_segment:
  "fst (execCmdStr demo_env demo_engine ''Y5 E0 Y C100'') = Status_Success \<and>
   indexTrackStack after_Y5_E0_Y_C100 = 0 \<and>
   segCount (pluginTracks after_Y5_E0_Y_C100 ! 0) = 5 \<and>
   pixCount (draw (pluginTracks after_Y5_E0_Y_C100 ! 0)) = 10"
  by code_simp

subsection \<open>C7: drawing-property commands without an argument\<close>

text \<open>
  C7, as stated, fails: after \<open>E0 H120 J50 K50\<close> the window starts at pixel 4 and has 5
  pixels; \<open>J\<close> then sets the start to 0 and \<open>K\<close> sets the length to 1.
\<close>

theorem C7_J_K_missing_argument_counterexample:
  "pixStart (pdraw after_E0_J50_K50) = 4 \<and>
   pixStart (pdraw (snd (execCmdStr demo_env after_E0_J50_K50 ''J''))) = 0 \<and>
   pixLen (pdraw after_E0_J50_K50) = 5 \<and>
   pixLen (pdraw (snd (execCmdStr demo_env after_E0_J50_K50 ''K''))) = 1"
  by code_simp

text \<open>
  C7, amended. For the drawing-property commands \<open>H\<close>, \<open>W\<close>, \<open>B\<close> and \<open>D\<close>, executing the
  command with a missing or non-digit argument keeps the governed property at its current
  value. \<open>J\<close> and \<open>K\<close> do not keep the current value: they read a missing or non-digit
  argument as 0 percent, so \<open>J\<close> sets \<open>pixStart\<close> to 0 and \<open>K\<close> sets \<open>pixLen\<close> to 1.
\<close>

theorem C7_missing_argument_amended:
  assumes track: "0 \<le> indexTrackStack s" "nat (indexTrackStack s) < length (pluginTracks s)"
    and nodigit: "\<not> starts_with_digit arg"
    and tok: "CHR '' '' \<notin> set arg" "CHR 0x00 \<notin> set arg"
  shows "degreeHue (pdraw (snd (execCmdStr env s (CHR ''H'' # arg)))) = degreeHue (pdraw s) \<and>
         pcentWhite (pdraw (snd (execCmdStr env s (CHR ''W'' # arg)))) = pcentWhite (pdraw s) \<and>
         pcentBright (pdraw (snd (execCmdStr env s (CHR ''B'' # arg)))) = pcentBright (pdraw s) \<and>
         msecsDelay (pdraw (snd (execCmdStr env s (CHR ''D'' # arg)))) = msecsDelay (pdraw s) \<and>
         pixStart (pdraw (snd (execCmdStr env s (CHR ''J'' # arg)))) = 0 \<and>
         pixLen (pdraw (snd (execCmdStr env s (CHR ''K'' # arg)))) = 1"
proof -
  have nd: "\<not> starts_with_digit (map toupper arg)"
    using nodigit by (simp add: starts_with_digit_toupper)
  have H: "degreeHue (pdraw (snd (execCmdStr env s (CHR ''H'' # arg)))) = degreeHue (pdraw s)"
    using track
    by (simp add: execCmdStr_single tok toupper_letters exec_cmd_def cmd_H_def
        pdraw_upd_pdraw makeColorVals_fields GetNumValue3_no_digit nd)
  have W: "pcentWhite (pdraw (snd (execCmdStr env s (CHR ''W'' # arg)))) = pcentWhite (pdraw s)"
    using track
    by (simp add: execCmdStr_single tok toupper_letters exec_cmd_def cmd_W_def
        pdraw_upd_pdraw makeColorVals_fields GetNumValue3_no_digit nd)
  have B: "pcentBright (pdraw (snd (execCmdStr env s (CHR ''B'' # arg)))) = pcentBright (pdraw s)"
    using track
    by (simp add: execCmdStr_single tok toupper_letters exec_cmd_def cmd_B_def
        pdraw_upd_pdraw makeColorVals_fields GetNumValue3_no_digit nd)
  have D: "msecsDelay (pdraw (snd (execCmdStr env s (CHR ''D'' # arg)))) = msecsDelay (pdraw s)"
    using track
    by (simp add: execCmdStr_single tok toupper_letters exec_cmd_def cmd_D_def
        pdraw_upd_pdraw GetNumValue3_no_digit nd)
  have J: "pixStart (pdraw (snd (execCmdStr env s (CHR ''J'' # arg)))) = 0"
    using track
    by (simp add: execCmdStr_single tok toupper_letters exec_cmd_def cmd_J_def
        pdraw_upd_pdraw GetNumValue3_no_digit nd cdiv_def)
  have K: "pixLen (pdraw (snd (execCmdStr env s (CHR ''K'' # arg)))) = 1"
    using track
    by (simp add: execCmdStr_single tok toupper_letters exec_cmd_def cmd_K_def
        pdraw_upd_pdraw GetNumValue3_no_digit nd cdiv_def)
  show ?thesis
    using H W B D J K by simp
qed

theorem C7_missing_argument_amended_witness:
  "degreeHue (pdraw (snd (execCmdStr demo_env after_E0_J50_K50 ''H''))) = 120 \<and>
   pixStart (pdraw (snd (execCmdStr demo_env after_E0_J50_K50 ''J''))) = 0"
proof -
  have h1: "0 \<le> indexTrackStack after_E0_J50_K50"
    "nat (indexTrackStack after_E0_J50_K50) < length (pluginTracks after_E0_J50_K50)"
    by code_simp+
  have h2: "\<not> starts_with_digit ''''"
    by code_simp
  have h3: "degreeHue (pdraw after_E0_J50_K50) = 120"
    by code_simp
  show ?thesis
    using C7_missing_argument_amended [OF h1 h2, of demo_env] h3 by simp
qed

subsection \<open>C8: the segment index\<close>

lemma NewPluginLayer_new_track_segIndex:
  assumes ok: "fst (NewPluginLayer env s plugin segindex) = Status_Success"
    and new: "indexTrackStack (snd (NewPluginLayer env s plugin segindex)) = indexTrackStack s + 1"
    and slot: "- 1 \<le> indexTrackStack s" "nat (maxPluginTracks s) \<le> length (pluginTracks s)"
  shows "segIndex (pluginTracks (snd (NewPluginLayer env s plugin segindex)) !
           nat (indexTrackStack s + 1)) = u8 segindex"
proof (cases "makePlugin env plugin")
  case None
  then show ?thesis
    using ok by (simp add: NewPluginLayer_def split: if_splits)
next
  case (Some p)
  show ?thesis
  proof (cases "is_redraw env p")
    case False
    then show ?thesis
      using ok new Some
      by (simp add: NewPluginLayer_def Let_def log_event_def upd_layer_def
          split: if_splits)
  next
    case True
    then show ?thesis
      using ok new Some slot
      by (simp add: NewPluginLayer_def Let_def log_event_def upd_layer_def upd_track_def
          malloc_next_def new_track_def split: if_splits)
  qed
qed

text \<open>
  C8, as stated, fails: after the call \<open>Y3 Y3\<close> has counted the segment index up to 1, the
  call \<open>E0\<close> creates its track with the index 0; only in the one call \<open>Y3 Y3 E0\<close> does the
  track get the index 1.
\<close>

theorem C8_segindex_across_calls_counterexample:
  "segIndex (pluginTracks (snd (exec_all demo_env demo_engine [''Y3 Y3'', ''E0''])) ! 0) = 0 \<and>
   segIndex (pluginTracks (snd (exec_all demo_env demo_engine [''Y3 Y3 E0''])) ! 0) = 1"
  by code_simp

text \<open>
  C8, amended. The segment index is a local variable of \<open>execCmdStr\<close>, not engine state:
  every call starts it at -1. Within one call a \<open>Y\<close> command with a positive argument
  increments it, and an \<open>E\<close> command that creates a track gives the track the index
  counted so far in this call (0 if it is still negative). So an \<open>E\<close> command in a later
  call creates its track with the index 0, whatever the earlier calls counted.
\<close>

theorem C8_segindex_local_to_call:
  assumes slot: "- 1 \<le> indexTrackStack s" "nat (maxPluginTracks s) \<le> length (pluginTracks s)"
    and tok: "CHR '' '' \<notin> set arg" "CHR 0x00 \<notin> set arg"
    and ok: "fst (exec_cmd env s k (CHR ''E'' # map toupper arg)) = Status_Success"
    and new: "indexTrackStack (fst (snd (exec_cmd env s k (CHR ''E'' # map toupper arg)))) =
              indexTrackStack s + 1"
  shows "segIndex (pluginTracks (fst (snd (exec_cmd env s k (CHR ''E'' # map toupper arg)))) !
           nat (indexTrackStack s + 1)) = u8 (if k < 0 then 0 else k) \<and>
         execCmdStr env s (CHR ''E'' # arg) =
           (fst (exec_cmd env s (- 1) (CHR ''E'' # map toupper arg)),
            fst (snd (exec_cmd env s (- 1) (CHR ''E'' # map toupper arg)))) \<and>
         snd (snd (exec_cmd env s k (CHR ''Y'' # yarg))) =
           (if 0 < GetNumValue2 yarg (numPixels s - eng_segOffset s) then k + 1 else k)"
proof -
  let ?n = "GetNumValue2 (map toupper arg) (MAX_PLUGIN_VALUE env)"
  let ?k = "if k < 0 then 0 else k"
  have ex: "exec_cmd env s k (CHR ''E'' # map toupper arg) =
              (fst (cmd_E env s k (map toupper arg)), snd (cmd_E env s k (map toupper arg)), k)"
    by (simp add: exec_cmd_def Let_def)
  have n: "0 \<le> ?n"
    using ok by (simp add: ex cmd_E_def Let_def split: if_splits)
  have e: "cmd_E env s k (map toupper arg) = NewPluginLayer env s ?n ?k"
    using n by (simp add: cmd_E_def Let_def)
  have A: "segIndex (pluginTracks (fst (snd (exec_cmd env s k (CHR ''E'' # map toupper arg)))) !
             nat (indexTrackStack s + 1)) = u8 ?k"
    using NewPluginLayer_new_track_segIndex [of env s ?n ?k] ok new slot
    by (simp add: ex e)
  have B: "execCmdStr env s (CHR ''E'' # arg) =
             (fst (exec_cmd env s (- 1) (CHR ''E'' # map toupper arg)),
              fst (snd (exec_cmd env s (- 1) (CHR ''E'' # map toupper arg))))"
    by (simp add: execCmdStr_single tok toupper_letters)
  have C: "snd (snd (exec_cmd env s k (CHR ''Y'' # yarg))) =
             (if 0 < GetNumValue2 yarg (numPixels s - eng_segOffset s) then k + 1 else k)"
    by (simp add: exec_cmd_def cmd_Y_def Let_def)
  show ?thesis
    using A B C by simp
qed

theorem C8_segindex_local_to_call_witness:
  "segIndex (pluginTracks (snd (execCmdStr demo_env after_Y3_Y3 ''E0'')) ! 0) = 0"
proof -
  have h1: "- 1 \<le> indexTrackStack after_Y3_Y3"
    "nat (maxPluginTracks after_Y3_Y3) \<le> length (pluginTracks after_Y3_Y3)"
    by code_simp+
  have h2: "CHR '' '' \<notin> set ''0''" "CHR 0x00 \<notin> set ''0''"
    by simp_all
  have h3: "fst (exec_cmd demo_env after_Y3_Y3 (- 1) (CHR ''E'' # map toupper ''0'')) =
            Status_Success"
    by code_simp
  have h4: "indexTrackStack
              (fst (snd (exec_cmd demo_env after_Y3_Y3 (- 1) (CHR ''E'' # map toupper ''0'')))) =
            indexTrackStack after_Y3_Y3 + 1"
    by code_simp
  have h5: "nat (indexTrackStack after_Y3_Y3 + 1) = 0"
    by code_simp
  show ?thesis
    using C8_segindex_local_to_call [OF h1 h2 h3 h4] h5 by (simp add: u8_def)
qed

subsection \<open>C9: a bad argument of the Q command\<close>



subsection \<open>C10: triggerForce with the source 255\<close>



end
